theory Spec2Isabelle
  imports Main
begin

section \<open>Values of the JavaScript runtime\<close>

text \<open>
  Thrown values are JavaScript error objects; the code only ever reads their
  \<open>message\<close>. The constructor records which kind of error it is.
  Strings are lists of characters; one character stands for one unit of a
  JavaScript string, so \<open>length\<close> is the string's \<open>.length\<close>. The
  non-ASCII symbols of the source's two status texts are written as their
  UTF-8 bytes; nothing below depends on the length of those two texts.
\<close>

datatype error = Error string | TypeError string | SyntaxError string

fun error_message :: "error \<Rightarrow> string" where
  "error_message (Error m) = m"
| "error_message (TypeError m) = m"
| "error_message (SyntaxError m) = m"

text \<open>\<open>a || b\<close> on an optional string: \<open>undefined\<close>, \<open>null\<close> and the empty
  string are falsy.\<close>

fun or_else :: "string option \<Rightarrow> string \<Rightarrow> string" where
  "or_else None d = d"
| "or_else (Some s) d = (if s = [] then d else s)"

text \<open>
  A JavaScript array with holes, as \<open>toolCalls\<close> of \<open>AIGateway.stream\<close> is
  one: reading a hole or past the end gives \<open>undefined\<close> (\<open>None\<close>), and
  storing past the end extends the array, leaving holes.
\<close>

definition array_get :: "'a option list \<Rightarrow> nat \<Rightarrow> 'a option" where
  "array_get xs i = (if i < length xs then xs ! i else None)"

definition array_set :: "'a option list \<Rightarrow> nat \<Rightarrow> 'a \<Rightarrow> 'a option list" where
  "array_set xs i v =
     (if i < length xs then xs[i := Some v]
      else xs @ replicate (i - length xs) None @ [Some v])"

section \<open>Data model\<close>

record attachment =
  att_url :: "string option"
  att_type :: string
  att_data :: string

text \<open>An entry of an assistant message's \<open>tool_calls\<close>; its \<open>type\<close> is always
  \<open>'function'\<close>.\<close>

record tool_call_entry =
  tce_id :: "string option"
  tce_name :: string
  tce_arguments :: string

record message =
  role :: string
  content :: string
  tool_calls :: "tool_call_entry list option"
  tool_call_id :: "string option"
  attachments :: "attachment list"

record 'j tool_definition =
  td_name :: string
  td_description :: string
  td_parameters :: 'j

text \<open>The chunks of the streaming protocol, one constructor per \<open>type\<close> tag.
  The Gateway's \<open>done\<close> chunk carries the model, the Orchestrator's does not.\<close>

datatype 'j chunk =
    Content (chunk_content: string) (chunk_model: string)
  | ToolCall (chunk_tool: string) (chunk_arguments: 'j) (chunk_id: "string option")
      (chunk_model: string)
  | Done "string option"
  | Status (chunk_content: string)
  | ToolStart (chunk_tool: string) (chunk_content: string)
  | ToolResult (chunk_tool: string) (chunk_content: string)
  | ToolError (chunk_tool: string) (chunk_content: string)
  | Warning (chunk_content: string)

fun is_content :: "'j chunk \<Rightarrow> bool" where
  "is_content (Content c m) = True"
| "is_content _ = False"

fun is_tool_call :: "'j chunk \<Rightarrow> bool" where
  "is_tool_call (ToolCall t a i m) = True"
| "is_tool_call _ = False"

fun is_done :: "'j chunk \<Rightarrow> bool" where
  "is_done (Done m) = True"
| "is_done _ = False"

fun is_tool_result :: "'j chunk \<Rightarrow> bool" where
  "is_tool_result (ToolResult t c) = True"
| "is_tool_result _ = False"

fun is_tool_error :: "'j chunk \<Rightarrow> bool" where
  "is_tool_error (ToolError t c) = True"
| "is_tool_error _ = False"

fun is_tool_start :: "'j chunk \<Rightarrow> bool" where
  "is_tool_start (ToolStart t c) = True"
| "is_tool_start _ = False"

fun is_warning :: "'j chunk \<Rightarrow> bool" where
  "is_warning (Warning c) = True"
| "is_warning _ = False"

section \<open>The wire protocol of the model endpoint\<close>

text \<open>One entry of \<open>delta.tool_calls\<close>; \<open>tcd_name\<close> and \<open>tcd_arguments\<close> are
  \<open>tc.function?.name\<close> and \<open>tc.function?.arguments\<close>.\<close>

record tool_call_delta =
  tcd_index :: "nat option"
  tcd_id :: "string option"
  tcd_name :: "string option"
  tcd_arguments :: "string option"

text \<open>One chunk of the wire stream, read through \<open>chunk.choices[0]\<close>: the
  delta's content, the delta's tool calls (empty when absent) and the finish
  reason.\<close>

record wire_chunk =
  delta_content :: "string option"
  delta_tool_calls :: "tool_call_delta list"
  finish_reason :: "string option"

text \<open>What \<open>client.chat.completions.create\<close> does: it throws, or it returns a
  stream that delivers chunks and then ends, normally or by throwing.\<close>

type_synonym wire_response = "error + wire_chunk list \<times> error option"

datatype wire_part = TextPart string | ImageUrl string

datatype wire_content = Text string | Parts "wire_part list"

record wire_message =
  wm_role :: string
  wm_content :: wire_content

text \<open>The parameters of the call; \<open>stream: true\<close>, \<open>max_tokens: 4096\<close> and
  \<open>temperature: 0.7\<close> are the same in every call.\<close>

record 'j params =
  p_model :: string
  p_messages :: "wire_message list"
  p_tools :: "'j tool_definition list option"
  p_tool_choice :: "string option"

record 'j request =
  req_messages :: "message list"
  req_tools :: "'j tool_definition list option"
  req_taskType :: "string option"

text \<open>A tool returns a string, a value that serialises to JSON, or nothing.\<close>

datatype 'j result = Str string | Json 'j | Undefined

text \<open>
  The surroundings of the core: the \<open>DEFAULT_MODEL\<close> environment variable,
  the client of the model endpoint, the runtime's \<open>JSON.parse\<close> and
  \<open>JSON.stringify\<close> (with its indentation) and the registry's table of tools.
  \<open>'w\<close> is the state of everything outside the core, which the endpoint and
  the tools read and change.
\<close>

record ('j, 'w) env =
  env_DEFAULT_MODEL :: "string option"
  client_create :: "'j params \<Rightarrow> 'w \<Rightarrow> wire_response \<times> 'w"
  JSON_parse :: "string \<Rightarrow> error + 'j"
  JSON_stringify :: "'j \<Rightarrow> nat \<Rightarrow> string"
  plugin_tools :: "string \<Rightarrow> ('j \<Rightarrow> 'w \<Rightarrow> (error + 'j result) \<times> 'w) option"

section \<open>Configuration (jarvis.config.js)\<close>

definition fastModel :: string where
  "fastModel = ''llama-3.1-8b-instant''"

definition defaultModel :: "('j, 'w) env \<Rightarrow> string" where
  "defaultModel env = or_else (env_DEFAULT_MODEL env) ''llama-3.3-70b-versatile''"

text \<open>The routing table, read by its own keys. A task type that names a
  property inherited from \<open>Object.prototype\<close> (such as \<open>constructor\<close>), for
  which the lookup in the source gives a value that is not a string, is outside
  this model.\<close>

definition routing :: "string \<Rightarrow> string option" where
  "routing taskType =
     (if taskType = ''general'' then Some ''llama-3.3-70b-versatile''
      else if taskType = ''reasoning'' then Some ''deepseek-r1-distill-llama-70b''
      else if taskType = ''coding'' then Some ''llama-3.3-70b-versatile''
      else if taskType = ''vision'' then Some ''llama-3.2-90b-vision-preview''
      else if taskType = ''fast'' then Some ''llama-3.1-8b-instant''
      else None)"

section \<open>AIGateway\<close>

definition selectModel :: "('j, 'w) env \<Rightarrow> string option \<Rightarrow> string" where
  "selectModel env taskType =
     or_else (routing (case taskType of None \<Rightarrow> ''general'' | Some t \<Rightarrow> t))
       (defaultModel env)"

definition formatMessage :: "message \<Rightarrow> wire_message" where
  "formatMessage m =
     (if length (attachments m) > 0 then
        \<lparr>wm_role = role m,
         wm_content = Parts (TextPart (content m) #
           map (\<lambda>a. ImageUrl (or_else (att_url a)
                  (''data:'' @ att_type a @ '';base64,'' @ att_data a)))
               (attachments m))\<rparr>
      else \<lparr>wm_role = role m, wm_content = Text (content m)\<rparr>)"

definition formatMessages :: "message list \<Rightarrow> wire_message list" where
  "formatMessages messages = map formatMessage messages"

definition build_params :: "string \<Rightarrow> 'j request \<Rightarrow> 'j params" where
  "build_params model request =
     (case req_tools request of
        None \<Rightarrow> \<lparr>p_model = model, p_messages = formatMessages (req_messages request),
                 p_tools = None, p_tool_choice = None\<rparr>
      | Some ts \<Rightarrow>
          if length ts > 0 then
            \<lparr>p_model = model, p_messages = formatMessages (req_messages request),
             p_tools = Some ts, p_tool_choice = Some ''auto''\<rparr>
          else \<lparr>p_model = model, p_messages = formatMessages (req_messages request),
                p_tools = None, p_tool_choice = None\<rparr>)"

text \<open>The accumulator of one tool call, \<open>{ id, name, arguments }\<close>.\<close>

record accumulator =
  acc_id :: "string option"
  acc_name :: string
  acc_arguments :: string

text \<open>Lines 84 to 90: one entry of \<open>delta.tool_calls\<close> applied to the
  array of accumulators.\<close>

definition accumulate ::
  "tool_call_delta \<Rightarrow> accumulator option list \<Rightarrow> accumulator option list" where
  "accumulate tc toolCalls =
     (case tcd_index tc of
        None \<Rightarrow> toolCalls
      | Some i \<Rightarrow>
          (let acc0 = (case array_get toolCalls i of
                         None \<Rightarrow> \<lparr>acc_id = tcd_id tc, acc_name = [], acc_arguments = []\<rparr>
                       | Some a \<Rightarrow> a);
               acc1 = (case tcd_name tc of
                         None \<Rightarrow> acc0
                       | Some n \<Rightarrow> if n = [] then acc0 else acc0\<lparr>acc_name := n\<rparr>);
               acc2 = (case tcd_arguments tc of
                         None \<Rightarrow> acc1
                       | Some s \<Rightarrow> if s = [] then acc1
                                  else acc1\<lparr>acc_arguments := acc_arguments acc1 @ s\<rparr>)
           in array_set toolCalls i acc2))"

text \<open>Lines 95 to 105: the loop over the accumulators when the finish reason
  is \<open>tool_calls\<close>. A hole in the array is \<open>undefined\<close>, and reading its
  \<open>name\<close> throws; \<open>JSON.parse\<close> throws on text that is not JSON. The chunks
  yielded before the throw have been delivered.\<close>

fun emit_tool_calls ::
  "('j, 'w) env \<Rightarrow> string \<Rightarrow> accumulator option list \<Rightarrow> 'j chunk list \<times> error option" where
  "emit_tool_calls env model [] = ([], None)"
| "emit_tool_calls env model (None # rest) =
     ([], Some (TypeError ''Cannot read properties of undefined (reading 'name')''))"
| "emit_tool_calls env model (Some tc # rest) =
     (if acc_name tc \<noteq> [] then
        (case JSON_parse env (or_else (Some (acc_arguments tc)) ''{}'') of
           Inl e \<Rightarrow> ([], Some e)
         | Inr args \<Rightarrow>
             (let (chunks, err) = emit_tool_calls env model rest
              in (ToolCall (acc_name tc) args (acc_id tc) model # chunks, err)))
      else emit_tool_calls env model rest)"

text \<open>Lines 74 to 107: the loop over the wire stream. \<open>fail\<close> is how the
  wire stream ends. The result is the chunks yielded and the error thrown, if
  any.\<close>

fun consume ::
  "('j, 'w) env \<Rightarrow> string \<Rightarrow> wire_chunk list \<Rightarrow> error option \<Rightarrow> accumulator option list
     \<Rightarrow> 'j chunk list \<times> error option" where
  "consume env model [] fail toolCalls = ([], fail)"
| "consume env model (chunk # rest) fail toolCalls =
     (let text = (case delta_content chunk of
                    None \<Rightarrow> []
                  | Some c \<Rightarrow> if c = [] then [] else [Content c model]);
          toolCalls' = fold accumulate (delta_tool_calls chunk) toolCalls
      in if finish_reason chunk = Some ''tool_calls'' then
           (case emit_tool_calls env model toolCalls' of
              (calls, Some e) \<Rightarrow> (text @ calls, Some e)
            | (calls, None) \<Rightarrow>
                (let (chunks, err) = consume env model rest fail toolCalls'
                 in (text @ calls @ chunks, err)))
         else
           (let (chunks, err) = consume env model rest fail toolCalls'
            in (text @ chunks, err)))"

text \<open>Lines 70 to 109, the body of \<open>try\<close>: the call of the endpoint, the loop
  and the final \<open>done\<close> chunk.\<close>

definition try_body ::
  "('j, 'w) env \<Rightarrow> string \<Rightarrow> 'j params \<Rightarrow> 'w \<Rightarrow> ('j chunk list \<times> error option) \<times> 'w" where
  "try_body env model params w =
     (case client_create env params w of
        (Inl e, w') \<Rightarrow> (([], Some e), w')
      | (Inr (wire, fail), w') \<Rightarrow>
          (case consume env model wire fail [] of
             (chunks, None) \<Rightarrow> ((chunks @ [Done (Some model)], None), w')
           | (chunks, Some e) \<Rightarrow> ((chunks, Some e), w')))"

text \<open>What one call of \<open>stream\<close> did when its sequence has been consumed: the
  chunks yielded, the error thrown to the consumer, and the parameters of each
  call of the endpoint (a record of the calls, which the code does not keep).\<close>

record 'j streamed =
  yielded :: "'j chunk list"
  thrown :: "error option"
  created :: "'j params list"

function stream ::
  "('j, 'w) env \<Rightarrow> 'j request \<Rightarrow> string option \<Rightarrow> 'w \<Rightarrow> 'j streamed \<times> 'w" where
  "stream env request modelName w =
     (let model = or_else modelName (selectModel env (req_taskType request));
          params = build_params model request
      in case try_body env model params w of
           ((chunks, None), w') \<Rightarrow>
             (\<lparr>yielded = chunks, thrown = None, created = [params]\<rparr>, w')
         | ((chunks, Some error), w') \<Rightarrow>
             if model \<noteq> fastModel then
               (case stream env request (Some fastModel) w' of
                  (s, w'') \<Rightarrow>
                    (\<lparr>yielded = chunks @ yielded s, thrown = thrown s,
                      created = params # created s\<rparr>, w''))
             else (\<lparr>yielded = chunks, thrown = Some error, created = [params]\<rparr>, w'))"
  by pat_completeness auto
termination
  by (relation "measure (\<lambda>(env, request, modelName, w).
        if or_else modelName (selectModel env (req_taskType request)) = fastModel
        then 0 else 1)")
     (auto simp: fastModel_def)

text \<open>Lines 151 to 165. The promise is rejected when the stream throws.\<close>

definition complete ::
  "('j, 'w) env \<Rightarrow> 'j request \<Rightarrow> string option \<Rightarrow> 'w
     \<Rightarrow> (error + string \<times> 'j chunk list) \<times> 'w" where
  "complete env request modelName w =
     (case stream env request modelName w of
        (s, w') \<Rightarrow>
          (case thrown s of
             Some e \<Rightarrow> (Inl e, w')
           | None \<Rightarrow>
               (Inr (fold (\<lambda>chunk (result, toolCalls).
                             (if is_content chunk then result @ chunk_content chunk else result,
                              if is_tool_call chunk then toolCalls @ [chunk] else toolCalls))
                       (yielded s) ([], [])), w')))"

section \<open>PluginManager\<close>

text \<open>Lines 221 to 237: the lookup in the table of tools, then the tool's own
  \<open>execute\<close>, whose error is thrown again.\<close>

definition PluginManager_execute ::
  "('j, 'w) env \<Rightarrow> string \<Rightarrow> 'j \<Rightarrow> 'w \<Rightarrow> (error + 'j result) \<times> 'w" where
  "PluginManager_execute env toolName args w =
     (case plugin_tools env toolName of
        None \<Rightarrow> (Inl (Error (''Unknown tool: '' @ toolName)), w)
      | Some tool \<Rightarrow> tool args w)"

section \<open>TaskPlanner\<close>

text \<open>
  Arrays of messages live in a store, so that the caller's array and the
  Orchestrator's own are two objects: an address is an index into the store.
  An address outside the store stands for \<open>undefined\<close>.
\<close>

type_synonym addr = nat

type_synonym heap = "message list list"

definition push :: "addr \<Rightarrow> message \<Rightarrow> heap \<Rightarrow> heap" where
  "push a m h = h[a := h ! a @ [m]]"

text \<open>The argument of \<open>execute\<close>: \<open>context.messages\<close> (a reference),
  \<open>context.tools\<close> and \<open>context.context?.taskType\<close>.\<close>

record 'j "context" =
  ctx_messages :: addr
  ctx_tools :: "'j tool_definition list option"
  ctx_taskType :: "string option"

definition maxIterations :: nat where
  "maxIterations = 10"

text \<open>Lines 117 to 123. \<open>JSON.stringify\<close> of \<open>undefined\<close> is \<open>undefined\<close>,
  and reading its \<open>length\<close> throws.\<close>

definition formatResult :: "('j, 'w) env \<Rightarrow> 'j result \<Rightarrow> error + string" where
  "formatResult env result =
     (case result of
        Str s \<Rightarrow> Inr (if length s > 200 then take 200 s @ ''...'' else s)
      | Json v \<Rightarrow>
          (let str = JSON_stringify env v 2
           in Inr (if length str > 200 then take 200 str @ ''...'' else str))
      | Undefined \<Rightarrow>
          Inl (TypeError ''Cannot read properties of undefined (reading 'length')''))"

text \<open>Lines 90 to 100, the \<open>catch\<close> of one tool call.\<close>

definition tool_catch ::
  "addr \<Rightarrow> 'j chunk \<Rightarrow> error \<Rightarrow> heap \<Rightarrow> 'j chunk list \<times> heap" where
  "tool_catch messages tc e h =
     ([ToolError (chunk_tool tc) (''> Error: '' @ error_message e @ ''\<newline>'')],
      push messages
        \<lparr>role = ''tool'', content = ''Error: '' @ error_message e, tool_calls = None,
         tool_call_id = chunk_id tc, attachments = []\<rparr> h)"

text \<open>Lines 67 to 101, the body of the loop over the tool calls: the chunks
  yielded, the store and the outside state afterwards.\<close>

definition run_tool ::
  "('j, 'w) env \<Rightarrow> addr \<Rightarrow> 'j chunk \<Rightarrow> heap \<Rightarrow> 'w \<Rightarrow> 'j chunk list \<times> heap \<times> 'w" where
  "run_tool env messages tc h w =
     (let start = ToolStart (chunk_tool tc)
                    (''\<newline>> Running `'' @ chunk_tool tc @ ''`...\<newline>'')
      in case PluginManager_execute env (chunk_tool tc) (chunk_arguments tc) w of
           (Inl e, w') \<Rightarrow>
             (case tool_catch messages tc e h of (cs, h') \<Rightarrow> (start # cs, h', w'))
         | (Inr result, w') \<Rightarrow>
             (case formatResult env result of
                Inl e \<Rightarrow>
                  (case tool_catch messages tc e h of (cs, h') \<Rightarrow> (start # cs, h', w'))
              | Inr shown \<Rightarrow>
                  ([start,
                    ToolResult (chunk_tool tc) (''> Result: '' @ shown @ ''\<newline>'')],
                   push messages
                     \<lparr>role = ''tool'',
                      content = (case result of
                                   Str s \<Rightarrow> s
                                 | Json v \<Rightarrow> JSON_stringify env v 0
                                 | Undefined \<Rightarrow> []),
                      tool_calls = None, tool_call_id = chunk_id tc, attachments = []\<rparr> h,
                   w')))"

fun run_tools ::
  "('j, 'w) env \<Rightarrow> addr \<Rightarrow> 'j chunk list \<Rightarrow> heap \<Rightarrow> 'w \<Rightarrow> 'j chunk list \<times> heap \<times> 'w" where
  "run_tools env messages [] h w = ([], h, w)"
| "run_tools env messages (tc # rest) h w =
     (case run_tool env messages tc h w of
        (cs, h', w') \<Rightarrow>
          (case run_tools env messages rest h' w' of
             (cs', h'', w'') \<Rightarrow> (cs @ cs', h'', w'')))"

text \<open>Lines 27 to 40, the loop over the chunks of one Gateway call: the
  content chunks are yielded and their text accumulated, the tool calls are
  collected.\<close>

fun collect ::
  "'j chunk list \<Rightarrow> 'j chunk list \<times> string \<times> 'j chunk list
     \<Rightarrow> 'j chunk list \<times> string \<times> 'j chunk list" where
  "collect [] acc = acc"
| "collect (chunk # rest) (forwarded, responseText, toolCalls) =
     collect rest
       (if is_content chunk then forwarded @ [chunk] else forwarded,
        if is_content chunk then responseText @ chunk_content chunk else responseText,
        if is_tool_call chunk then toolCalls @ [chunk] else toolCalls)"

text \<open>Lines 52 to 63, the assistant message of a turn that requests tools.\<close>

definition assistant_message :: "('j, 'w) env \<Rightarrow> string \<Rightarrow> 'j chunk list \<Rightarrow> message" where
  "assistant_message env responseText toolCalls =
     \<lparr>role = ''assistant'', content = responseText,
      tool_calls = Some (map (\<lambda>tc. \<lparr>tce_id = chunk_id tc, tce_name = chunk_tool tc,
                                    tce_arguments = JSON_stringify env (chunk_arguments tc) 0\<rparr>)
                          toolCalls),
      tool_call_id = None, attachments = []\<rparr>"

definition executing_tools :: string where
  "executing_tools =
     ''\<newline>\<newline>'' @ [CHR 0xF0, CHR 0x9F, CHR 0x94, CHR 0xA7] @ '' *Executing tools...*\<newline>''"

definition max_iterations_reached :: string where
  "max_iterations_reached =
     ''\<newline>'' @ [CHR 0xE2, CHR 0x9A, CHR 0xA0, CHR 0xEF, CHR 0xB8, CHR 0x8F]
       @ '' *Task reached maximum iterations. Please refine your request.*\<newline>''"

text \<open>
  What one run of \<open>execute\<close> did when its sequence has been consumed: the
  chunks yielded, the error thrown to the consumer, the store and the outside
  state at the end, and a record, which the code does not keep, of the calls
  of \<open>gateway.stream\<close> (the request and what the call did) and of
  \<open>plugins.execute\<close> (the tool and its arguments).
\<close>

record ('j, 'w) run =
  chunks :: "'j chunk list"
  raised :: "error option"
  calls :: "('j request \<times> 'j streamed) list"
  invocations :: "(string \<times> 'j) list"
  heap :: heap
  world :: 'w

text \<open>Lines 20 to 111: the \<open>while\<close> loop and the warning after it.
  \<open>messages\<close> is the address of the Orchestrator's array.\<close>

function execute_loop ::
  "('j, 'w) env \<Rightarrow> 'j context \<Rightarrow> addr \<Rightarrow> nat \<Rightarrow> heap \<Rightarrow> 'w \<Rightarrow> ('j, 'w) run" where
  "execute_loop env context messages iterations h w =
     (if iterations < maxIterations then
        (let request = \<lparr>req_messages = h ! messages, req_tools = ctx_tools context,
                        req_taskType = ctx_taskType context\<rparr>
         in case stream env request None w of
              (s, w1) \<Rightarrow>
                (case collect (yielded s) ([], [], []) of
                   (forwarded, responseText, toolCalls) \<Rightarrow>
                     (case thrown s of
                        Some e \<Rightarrow>
                          \<lparr>chunks = forwarded, raised = Some e, calls = [(request, s)],
                           invocations = [], heap = h, world = w1\<rparr>
                      | None \<Rightarrow>
                          if length toolCalls = 0 then
                            \<lparr>chunks = forwarded @ [Done None], raised = None,
                             calls = [(request, s)], invocations = [], heap = h,
                             world = w1\<rparr>
                          else
                            (case run_tools env messages toolCalls
                                    (push messages
                                       (assistant_message env responseText toolCalls) h) w1 of
                               (cs, h2, w2) \<Rightarrow>
                                 (let r = execute_loop env context messages
                                            (Suc iterations) h2 w2
                                  in r\<lparr>chunks := forwarded @ [Status executing_tools] @ cs
                                         @ [Status ''\<newline>''] @ chunks r,
                                       calls := (request, s) # calls r,
                                       invocations :=
                                         map (\<lambda>tc. (chunk_tool tc, chunk_arguments tc))
                                           toolCalls @ invocations r\<rparr>)))))
      else \<lparr>chunks = [Warning max_iterations_reached], raised = None, calls = [],
            invocations = [], heap = h, world = w\<rparr>)"
  by pat_completeness auto
termination
  by (relation "measure (\<lambda>(env, context, messages, iterations, h, w).
        maxIterations - iterations)") auto

text \<open>Lines 16 to 18: \<open>[...context.messages]\<close> is a new array, stored at a
  new address, with the elements of the caller's array; spreading
  \<open>undefined\<close> throws.\<close>

definition execute ::
  "('j, 'w) env \<Rightarrow> 'j context \<Rightarrow> heap \<Rightarrow> 'w \<Rightarrow> ('j, 'w) run" where
  "execute env context h w =
     (if ctx_messages context < length h then
        execute_loop env context (length h) 0 (h @ [h ! ctx_messages context]) w
      else \<lparr>chunks = [], raised = Some (TypeError ''context.messages is not iterable''),
            calls = [], invocations = [], heap = h, world = w\<rparr>)"

text \<open>
  Fragments of argument text on the wire: the text that an entry of
  \<open>delta.tool_calls\<close> carries, the first entry of a tool call (with its id and
  name), a later entry (with text only), and a wire chunk that carries one
  entry and nothing else.
\<close>

definition fragment :: "tool_call_delta \<Rightarrow> string" where
  "fragment d = (case tcd_arguments d of None \<Rightarrow> [] | Some s \<Rightarrow> s)"

definition first_delta :: "nat \<Rightarrow> string option \<Rightarrow> string option \<Rightarrow> string \<Rightarrow> tool_call_delta" where
  "first_delta i ident name f =
     \<lparr>tcd_index = Some i, tcd_id = ident, tcd_name = name, tcd_arguments = Some f\<rparr>"

definition next_delta :: "nat \<Rightarrow> string \<Rightarrow> tool_call_delta" where
  "next_delta i f =
     \<lparr>tcd_index = Some i, tcd_id = None, tcd_name = None, tcd_arguments = Some f\<rparr>"

definition delta_chunk :: "tool_call_delta \<Rightarrow> wire_chunk" where
  "delta_chunk d = \<lparr>delta_content = None, delta_tool_calls = [d], finish_reason = None\<rparr>"

text \<open>\<open>complete\<close> as the specification words it: the content chunks' texts
  concatenated in emission order, and the tool-call chunks in emission order,
  of one \<open>stream\<close> call.\<close>

definition complete_spec ::
  "('j, 'w) env \<Rightarrow> 'j request \<Rightarrow> string option \<Rightarrow> 'w
     \<Rightarrow> (error + string \<times> 'j chunk list) \<times> 'w" where
  "complete_spec env request modelName w =
     (case stream env request modelName w of
        (s, w') \<Rightarrow>
          (case thrown s of
             Some e \<Rightarrow> (Inl e, w')
           | None \<Rightarrow>
               (Inr (concat (map chunk_content (filter is_content (yielded s))),
                     filter is_tool_call (yielded s)), w')))"

text \<open>The request of one turn, and the text and the tool calls that the turn's
  Gateway call produced.\<close>

abbreviation turn_request :: "'j context \<Rightarrow> message list \<Rightarrow> 'j request" where
  "turn_request ctx ms \<equiv>
     \<lparr>req_messages = ms, req_tools = ctx_tools ctx, req_taskType = ctx_taskType ctx\<rparr>"

abbreviation turn_text :: "'j streamed \<Rightarrow> string" where
  "turn_text s \<equiv> concat (map chunk_content (filter is_content (yielded s)))"

abbreviation turn_tool_calls :: "'j streamed \<Rightarrow> 'j chunk list" where
  "turn_tool_calls s \<equiv> filter is_tool_call (yielded s)"

section \<open>Example surroundings\<close>

text \<open>
  The concrete surroundings of the examples below. The JSON values of the
  examples are \<open>{}\<close> and \<open>{"a":1}\<close>; \<open>example_parse\<close> and \<open>example_stringify\<close>
  are \<open>JSON.parse\<close> and \<open>JSON.stringify\<close> on them, and every other text that
  the examples parse is not JSON. The endpoint of the examples answers its
  \<open>n\<close>-th call (counted from 0) with \<open>script n\<close>; the outside state is the
  number of calls made.
\<close>

datatype json = EmptyObject | ObjectA1

definition example_parse :: "string \<Rightarrow> error + json" where
  \<open>example_parse s =
     (if s = ''{}'' then Inr EmptyObject
      else if s = ''{"a":1}'' then Inr ObjectA1
      else Inl (SyntaxError ''Unexpected end of JSON input''))\<close>

definition example_stringify :: "json \<Rightarrow> nat \<Rightarrow> string" where
  \<open>example_stringify v indent =
     (case v of
        EmptyObject \<Rightarrow> ''{}''
      | ObjectA1 \<Rightarrow> if indent = 0 then ''{"a":1}'' else ''{\<newline>  "a": 1\<newline>}'')\<close>

text \<open>The tools of the examples: a clock, a tool that returns 500 characters
  and a tool \<open>X\<close> that always fails.\<close>

definition example_tools ::
  "string \<Rightarrow> (json \<Rightarrow> nat \<Rightarrow> (error + json result) \<times> nat) option" where
  "example_tools name =
     (if name = ''get_current_time'' then Some (\<lambda>args n. (Inr (Str ''12:00''), n))
      else if name = ''read_file'' then Some (\<lambda>args n. (Inr (Str (replicate 500 CHR ''a'')), n))
      else if name = ''X'' then Some (\<lambda>args n. (Inl (Error ''boom''), n))
      else None)"

definition scripted :: "(nat \<Rightarrow> wire_response) \<Rightarrow> (json, nat) env" where
  "scripted script =
     \<lparr>env_DEFAULT_MODEL = None, client_create = (\<lambda>params n. (script n, Suc n)),
      JSON_parse = example_parse, JSON_stringify = example_stringify,
      plugin_tools = example_tools\<rparr>"

definition finish_chunk :: "string \<Rightarrow> wire_chunk" where
  "finish_chunk reason =
     \<lparr>delta_content = None, delta_tool_calls = [], finish_reason = Some reason\<rparr>"

definition content_chunk :: "string \<Rightarrow> wire_chunk" where
  "content_chunk c = \<lparr>delta_content = Some c, delta_tool_calls = [], finish_reason = None\<rparr>"

text \<open>A response that requests one tool, and a response that answers in text.\<close>

definition requests_tool :: "string \<Rightarrow> string \<Rightarrow> string \<Rightarrow> wire_response" where
  "requests_tool ident name args =
     Inr ([delta_chunk (first_delta 0 (Some ident) (Some name) args),
           finish_chunk ''tool_calls''], None)"

definition answers :: "string \<Rightarrow> wire_response" where
  "answers c = Inr ([content_chunk c, finish_chunk ''stop''], None)"

definition example_heap :: heap where
  "example_heap =
     [[\<lparr>role = ''user'', content = ''What time is it?'', tool_calls = None,
        tool_call_id = None, attachments = []\<rparr>]]"

definition example_context :: "json context" where
  "example_context = \<lparr>ctx_messages = 0, ctx_tools = None, ctx_taskType = None\<rparr>"

definition fast_context :: "json context" where
  "fast_context = \<lparr>ctx_messages = 0, ctx_tools = None, ctx_taskType = Some ''fast''\<rparr>"

text \<open>An endpoint that first requests one tool and then answers in text, and
  an endpoint that refuses every call.\<close>

definition tool_then_answer :: "string \<Rightarrow> string \<Rightarrow> (json, nat) env" where
  "tool_then_answer name reply =
     scripted (\<lambda>n. if n = 0 then requests_tool ''call_1'' name [] else answers reply)"


section \<open>Role sequencing\<close>

text \<open>
  \<open>answered toolCalls appended\<close>: the messages \<open>appended\<close> are one assistant
  message whose tool-call entries carry the ids of \<open>toolCalls\<close>, in order,
  followed by one tool message per call, in order, each with that call's id.
  \<open>turn_answered c after\<close>: the messages \<open>after\<close> are those of the request
  of the Gateway call \<open>c\<close> followed by messages that answer its tool calls.
  \<open>requests_tools c\<close>: the Gateway call \<open>c\<close> returned without throwing and
  yielded tool calls.
\<close>

definition answered :: "'j chunk list \<Rightarrow> message list \<Rightarrow> bool" where
  "answered toolCalls appended =
     (case appended of
        [] \<Rightarrow> False
      | assistant # tools \<Rightarrow>
          role assistant = ''assistant'' \<and>
          map_option (map tce_id) (tool_calls assistant) = Some (map chunk_id toolCalls) \<and>
          map role tools = map (\<lambda>tc. ''tool'') toolCalls \<and>
          map tool_call_id tools = map chunk_id toolCalls)"

definition turn_answered :: "'j request \<times> 'j streamed \<Rightarrow> message list \<Rightarrow> bool" where
  "turn_answered c after =
     (take (length (req_messages (fst c))) after = req_messages (fst c) \<and>
      answered (turn_tool_calls (snd c)) (drop (length (req_messages (fst c))) after))"

definition requests_tools :: "'j request \<times> 'j streamed \<Rightarrow> bool" where
  "requests_tools c = (thrown (snd c) = None \<and> turn_tool_calls (snd c) \<noteq> [])"

text \<open>The accumulators after the Gateway's loop has gone through the wire
  chunks \<open>wire\<close>, starting with \<open>toolCalls\<close>.\<close>

definition accumulators_after ::
  "wire_chunk list \<Rightarrow> accumulator option list \<Rightarrow> accumulator option list" where
  "accumulators_after wire toolCalls =
     fold (\<lambda>chunk. fold accumulate (delta_tool_calls chunk)) wire toolCalls"

text \<open>An endpoint that requests a tool with the argument text \<open>{\<close>, which is
  not JSON.\<close>

definition malformed :: "(json, nat) env" where
  "malformed = scripted (\<lambda>n. requests_tool ''call_1'' ''get_current_time'' ''{'')"

section \<open>Tool-call reconstruction, as the specification words it\<close>

text \<open>
  The entries of \<open>delta.tool_calls\<close> of a wire stream in arrival order; the
  entries for one index; and per index the argument text (the fragments
  concatenated in arrival order), the name (the last non-empty name sent) and
  the id (that of the first entry). \<open>forwarded_content\<close> is the content chunks
  of a wire stream. \<open>whole_chunk ds n\<close> is the wire chunk that delivers, for
  each index below \<open>n\<close>, the whole argument text of \<open>ds\<close> as one fragment,
  and signals that the model requests tools.
\<close>

definition wire_deltas :: "wire_chunk list \<Rightarrow> tool_call_delta list" where
  "wire_deltas wire = concat (map delta_tool_calls wire)"

definition deltas_at :: "tool_call_delta list \<Rightarrow> nat \<Rightarrow> tool_call_delta list" where
  "deltas_at ds j = filter (\<lambda>d. tcd_index d = Some j) ds"

definition text_at :: "tool_call_delta list \<Rightarrow> nat \<Rightarrow> string" where
  "text_at ds j = concat (map fragment (deltas_at ds j))"

fun last_name :: "tool_call_delta list \<Rightarrow> string \<Rightarrow> string" where
  "last_name [] n = n"
| "last_name (d # ds) n =
     last_name ds (case tcd_name d of None \<Rightarrow> n | Some m \<Rightarrow> if m = [] then n else m)"

definition name_at :: "tool_call_delta list \<Rightarrow> nat \<Rightarrow> string" where
  "name_at ds j = last_name (deltas_at ds j) []"

definition id_at :: "tool_call_delta list \<Rightarrow> nat \<Rightarrow> string option" where
  "id_at ds j = (case deltas_at ds j of [] \<Rightarrow> None | d # rest \<Rightarrow> tcd_id d)"

definition forwarded_content :: "string \<Rightarrow> wire_chunk list \<Rightarrow> 'j chunk list" where
  "forwarded_content model wire =
     concat (map (\<lambda>c. case delta_content c of
                         None \<Rightarrow> []
                       | Some t \<Rightarrow> if t = [] then [] else [Content t model]) wire)"

definition whole_delta :: "tool_call_delta list \<Rightarrow> nat \<Rightarrow> tool_call_delta" where
  "whole_delta ds j =
     \<lparr>tcd_index = Some j, tcd_id = id_at ds j, tcd_name = Some (name_at ds j),
      tcd_arguments = Some (text_at ds j)\<rparr>"

definition whole_chunk :: "tool_call_delta list \<Rightarrow> nat \<Rightarrow> wire_chunk" where
  "whole_chunk ds n =
     \<lparr>delta_content = None, delta_tool_calls = map (whole_delta ds) [0..<n],
      finish_reason = Some ''tool_calls''\<rparr>"

declare stream.simps [simp del]
declare execute_loop.simps [simp del]

section \<open>Properties\<close>

lemma complete_fold:
  "fold (\<lambda>chunk (result, toolCalls).
           (if is_content chunk then result @ chunk_content chunk else result,
            if is_tool_call chunk then toolCalls @ [chunk] else toolCalls)) xs (r, t)
   = (r @ concat (map chunk_content (filter is_content xs)), t @ filter is_tool_call xs)"
  by (induction xs arbitrary: r t) auto

lemma collect_eq:
  "collect xs (f, t, c) =
     (f @ filter is_content xs, t @ concat (map chunk_content (filter is_content xs)),
      c @ filter is_tool_call xs)"
  by (induction xs arbitrary: f t c) auto

lemma push_length [simp]: "length (push a m h) = length h"
  by (simp add: push_def)

lemma push_other: "b \<noteq> a \<Longrightarrow> push a m h ! b = h ! b"
  by (simp add: push_def)

lemma push_same: "a < length h \<Longrightarrow> push a m h ! a = h ! a @ [m]"
  by (simp add: push_def)

lemma run_tool_frame:
  "run_tool env a tc h w = (cs, h', w') \<Longrightarrow> length h' = length h \<and> (\<forall>b. b \<noteq> a \<longrightarrow> h' ! b = h ! b)"
  by (auto simp: run_tool_def tool_catch_def push_other Let_def split: prod.splits sum.splits)

lemma run_tools_frame:
  "run_tools env a tcs h w = (cs, h', w') \<Longrightarrow> length h' = length h \<and> (\<forall>b. b \<noteq> a \<longrightarrow> h' ! b = h ! b)"
proof (induction tcs arbitrary: h w cs h' w')
  case Nil
  then show ?case by simp
next
  case (Cons tc tcs)
  obtain c1 h1 w1 where one: "run_tool env a tc h w = (c1, h1, w1)"
    by (cases "run_tool env a tc h w") auto
  obtain c2 h2 w2 where two: "run_tools env a tcs h1 w1 = (c2, h2, w2)"
    by (cases "run_tools env a tcs h1 w1") auto
  from Cons.prems one two have "h' = h2" by simp
  with run_tool_frame[OF one] Cons.IH[OF two] show ?case by simp
qed


lemma execute_loop_stop:
  "\<not> i < maxIterations \<Longrightarrow>
   execute_loop env ctx a i h w =
     \<lparr>chunks = [Warning max_iterations_reached], raised = None, calls = [],
      invocations = [], heap = h, world = w\<rparr>"
  by (simp add: execute_loop.simps)

lemma execute_loop_throw:
  "i < maxIterations \<Longrightarrow> stream env (turn_request ctx (h ! a)) None w = (s, w1) \<Longrightarrow>
   thrown s = Some e \<Longrightarrow>
   execute_loop env ctx a i h w =
     \<lparr>chunks = filter is_content (yielded s), raised = Some e,
      calls = [(turn_request ctx (h ! a), s)], invocations = [], heap = h, world = w1\<rparr>"
  by (simp add: execute_loop.simps[of env ctx a i h w] collect_eq)

lemma execute_loop_done:
  "i < maxIterations \<Longrightarrow> stream env (turn_request ctx (h ! a)) None w = (s, w1) \<Longrightarrow>
   thrown s = None \<Longrightarrow> turn_tool_calls s = [] \<Longrightarrow>
   execute_loop env ctx a i h w =
     \<lparr>chunks = filter is_content (yielded s) @ [Done None], raised = None,
      calls = [(turn_request ctx (h ! a), s)], invocations = [], heap = h, world = w1\<rparr>"
  by (simp add: execute_loop.simps[of env ctx a i h w] collect_eq)

lemma execute_loop_step:
  "i < maxIterations \<Longrightarrow> stream env (turn_request ctx (h ! a)) None w = (s, w1) \<Longrightarrow>
   thrown s = None \<Longrightarrow> turn_tool_calls s \<noteq> [] \<Longrightarrow>
   run_tools env a (turn_tool_calls s)
     (push a (assistant_message env (turn_text s) (turn_tool_calls s)) h) w1 = (cs, h2, w2) \<Longrightarrow>
   execute_loop env ctx a i h w =
     (execute_loop env ctx a (Suc i) h2 w2)
       \<lparr>chunks := filter is_content (yielded s) @ [Status executing_tools] @ cs
           @ [Status ''\<newline>''] @ chunks (execute_loop env ctx a (Suc i) h2 w2),
        calls := (turn_request ctx (h ! a), s) # calls (execute_loop env ctx a (Suc i) h2 w2),
        invocations := map (\<lambda>tc. (chunk_tool tc, chunk_arguments tc)) (turn_tool_calls s)
           @ invocations (execute_loop env ctx a (Suc i) h2 w2)\<rparr>"
  by (simp add: execute_loop.simps[of env ctx a i h w] collect_eq Let_def)

lemma execute_loop_cases [case_names stop throw finish step]:
  assumes stop: "\<And>i h w. \<not> i < maxIterations \<Longrightarrow> P i h w"
    and throw: "\<And>i h w s w1 e. i < maxIterations \<Longrightarrow>
          stream env (turn_request ctx (h ! a)) None w = (s, w1) \<Longrightarrow>
          thrown s = Some e \<Longrightarrow> P i h w"
    and finish: "\<And>i h w s w1. i < maxIterations \<Longrightarrow>
          stream env (turn_request ctx (h ! a)) None w = (s, w1) \<Longrightarrow>
          thrown s = None \<Longrightarrow> turn_tool_calls s = [] \<Longrightarrow> P i h w"
    and step: "\<And>i h w s w1 cs h2 w2. i < maxIterations \<Longrightarrow>
          stream env (turn_request ctx (h ! a)) None w = (s, w1) \<Longrightarrow>
          thrown s = None \<Longrightarrow> turn_tool_calls s \<noteq> [] \<Longrightarrow>
          run_tools env a (turn_tool_calls s)
            (push a (assistant_message env (turn_text s) (turn_tool_calls s)) h) w1
            = (cs, h2, w2) \<Longrightarrow>
          P (Suc i) h2 w2 \<Longrightarrow> P i h w"
  shows "P i h w"
proof -
  have "maxIterations - i = n \<Longrightarrow> P i h w" for n
  proof (induction n arbitrary: i h w)
    case 0
    then show ?case using stop by simp
  next
    case (Suc n j g v)
    then have lt: "j < maxIterations" by simp
    obtain s w1 where st: "stream env (turn_request ctx (g ! a)) None v = (s, w1)"
      by (cases "stream env (turn_request ctx (g ! a)) None v") auto
    show ?case
    proof (cases "thrown s")
      case (Some e)
      with lt st show ?thesis by (rule throw)
    next
      case None
      show ?thesis
      proof (cases "turn_tool_calls s = []")
        case True
        with lt st None show ?thesis by (rule finish)
      next
        case False
        obtain cs h2 w2 where rt: "run_tools env a (turn_tool_calls s)
              (push a (assistant_message env (turn_text s) (turn_tool_calls s)) g) w1
              = (cs, h2, w2)"
          by (cases "run_tools env a (turn_tool_calls s)
              (push a (assistant_message env (turn_text s) (turn_tool_calls s)) g) w1") auto
        from Suc.prems have "maxIterations - Suc j = n" by simp
        then have "P (Suc j) h2 w2" by (rule Suc.IH)
        with lt st None False rt show ?thesis by (rule step)
      qed
    qed
  qed
  then show ?thesis by simp
qed

lemma execute_loop_frame:
  "length (heap (execute_loop env ctx a i h w)) = length h \<and>
   (\<forall>b. b \<noteq> a \<longrightarrow> heap (execute_loop env ctx a i h w) ! b = h ! b)"
proof (induction i h w rule: execute_loop_cases[where env = env and ctx = ctx and a = a])
  case (stop i h w)
  then show ?case by (simp add: execute_loop_stop)
next
  case (throw i h w s w1 e)
  then show ?case by (simp add: execute_loop_throw)
next
  case (finish i h w s w1)
  then show ?case by (simp add: execute_loop_done)
next
  case (step i h w s w1 cs h2 w2)
  from run_tools_frame[OF step(5)] step(6) show ?case
    by (simp add: execute_loop_step[OF step(1-5)] push_other)
qed

lemma array_get_set:
  "array_get (array_set xs j v) i = (if i = j then Some v else array_get xs i)"
  by (auto simp: array_get_def array_set_def nth_append)

lemma stream_fallback_model:
  "or_else (Some fastModel) d = fastModel"
  by (simp add: fastModel_def)

lemma content_not_done: "filter (\<lambda>c. is_content c \<and> is_done c) ys = []"
  by (induction ys) (auto elim: is_content.elims)

lemma run_tool_shape:
  "run_tool env a tc h w = (cs, h', w') \<Longrightarrow>
   \<exists>c m. cs = [ToolStart (chunk_tool tc) (''\<newline>> Running `'' @ chunk_tool tc @ ''`...\<newline>''), c] \<and>
         (is_tool_result c \<or> is_tool_error c) \<and> chunk_tool c = chunk_tool tc \<and>
         h' = push a m h \<and> role m = ''tool'' \<and> tool_call_id m = chunk_id tc"
proof (cases "PluginManager_execute env (chunk_tool tc) (chunk_arguments tc) w")
  case (Pair res v)
  assume r: "run_tool env a tc h w = (cs, h', w')"
  show ?thesis
  proof (cases res)
    case (Inl e)
    with Pair r show ?thesis
      by (intro exI[of _ "ToolError (chunk_tool tc) (''> Error: '' @ error_message e @ ''\<newline>'')"]
            exI[of _ "\<lparr>role = ''tool'', content = ''Error: '' @ error_message e,
              tool_calls = None, tool_call_id = chunk_id tc, attachments = []\<rparr>"])
         (auto simp: run_tool_def tool_catch_def)
  next
    case (Inr result)
    show ?thesis
    proof (cases "formatResult env result")
      case (Inl e)
      with Pair Inr r show ?thesis
        by (intro exI[of _ "ToolError (chunk_tool tc) (''> Error: '' @ error_message e @ ''\<newline>'')"]
              exI[of _ "\<lparr>role = ''tool'', content = ''Error: '' @ error_message e,
                tool_calls = None, tool_call_id = chunk_id tc, attachments = []\<rparr>"])
           (auto simp: run_tool_def tool_catch_def)
    next
      case (Inr shown)
      with Pair \<open>res = Inr result\<close> r show ?thesis
        by (intro exI[of _ "ToolResult (chunk_tool tc) (''> Result: '' @ shown @ ''\<newline>'')"]
              exI[of _ "\<lparr>role = ''tool'',
                content = (case result of Str s \<Rightarrow> s
                           | Json v \<Rightarrow> JSON_stringify env v 0 | Undefined \<Rightarrow> []),
                tool_calls = None, tool_call_id = chunk_id tc, attachments = []\<rparr>"])
           (auto simp: run_tool_def tool_catch_def)
    qed
  qed
qed

lemma push_push: "a < length h \<Longrightarrow> (h[a := h ! a @ ms])[a := (h[a := h ! a @ ms]) ! a @ ns] = h[a := h ! a @ ms @ ns]"
  by simp

lemma run_tools_shape:
  "run_tools env a tcs h w = (cs, h', w') \<Longrightarrow> a < length h \<Longrightarrow>
   \<exists>tms. h' = h[a := h ! a @ tms] \<and> map role tms = map (\<lambda>tc. ''tool'') tcs \<and>
         map tool_call_id tms = map chunk_id tcs"
proof (induction tcs arbitrary: h w cs h' w')
  case Nil
  then show ?case by simp
next
  case (Cons tc tcs)
  obtain c1 h1 w1 where one: "run_tool env a tc h w = (c1, h1, w1)"
    by (cases "run_tool env a tc h w") auto
  obtain c2 h2 w2 where two: "run_tools env a tcs h1 w1 = (c2, h2, w2)"
    by (cases "run_tools env a tcs h1 w1") auto
  from Cons.prems one two have eq: "h' = h2" by simp
  from run_tool_shape[OF one] obtain m where
    m: "h1 = push a m h" "role m = ''tool''" "tool_call_id m = chunk_id tc"
    by blast
  with Cons.prems(2) have len: "a < length h1" by simp
  from Cons.IH[OF two len] obtain tms where
    tms: "h2 = h1[a := h1 ! a @ tms]" "map role tms = map (\<lambda>tc. ''tool'') tcs"
      "map tool_call_id tms = map chunk_id tcs"
    by blast
  from m(1) tms(1) Cons.prems(2) have "h2 = h[a := h ! a @ (m # tms)]"
    by (simp add: push_def)
  with eq m tms show ?case
    by (intro exI[of _ "m # tms"]) simp
qed

lemma run_tools_chunks:
  "run_tools env a tcs h w = (cs, h', w') \<Longrightarrow>
   filter is_warning cs = [] \<and> filter is_done cs = [] \<and>
   map chunk_tool (filter is_tool_start cs) = map chunk_tool tcs"
proof (induction tcs arbitrary: h w cs h' w')
  case Nil
  then show ?case by simp
next
  case (Cons tc tcs)
  obtain c1 h1 w1 where one: "run_tool env a tc h w = (c1, h1, w1)"
    by (cases "run_tool env a tc h w") auto
  obtain c2 h2 w2 where two: "run_tools env a tcs h1 w1 = (c2, h2, w2)"
    by (cases "run_tools env a tcs h1 w1") auto
  from Cons.prems one two have eq: "cs = c1 @ c2" by simp
  from run_tool_shape[OF one] obtain c where
    c: "c1 = [ToolStart (chunk_tool tc) (''\<newline>> Running `'' @ chunk_tool tc @ ''`...\<newline>''), c]"
      "is_tool_result c \<or> is_tool_error c"
    by blast
  then have "filter is_warning c1 = [] \<and> filter is_done c1 = [] \<and>
     map chunk_tool (filter is_tool_start c1) = [chunk_tool tc]"
    by (cases c) auto
  with Cons.IH[OF two] eq show ?case by simp
qed

lemma content_not_warning: "filter (\<lambda>c. is_content c \<and> is_warning c) ys = []"
  by (induction ys) (auto elim: is_content.elims)

lemma calls_bounded:
  "length (calls (execute_loop env ctx a i h w)) \<le> maxIterations - i"
proof (induction i h w rule: execute_loop_cases[where env = env and ctx = ctx and a = a])
  case (stop i h w)
  then show ?case by (simp add: execute_loop_stop)
next
  case (throw i h w s w1 e)
  then show ?case by (simp add: execute_loop_throw)
next
  case (finish i h w s w1)
  then show ?case by (simp add: execute_loop_done)
next
  case (step i h w s w1 cs h2 w2)
  then show ?case by (simp add: execute_loop_step[OF step(1-5)])
qed

lemma ceiling_warning:
  "length (calls (execute_loop env ctx a i h w)) = maxIterations - i \<Longrightarrow>
   i < maxIterations \<Longrightarrow>
   thrown (snd (last (calls (execute_loop env ctx a i h w)))) = None \<Longrightarrow>
   turn_tool_calls (snd (last (calls (execute_loop env ctx a i h w)))) \<noteq> [] \<Longrightarrow>
   raised (execute_loop env ctx a i h w) = None \<and>
   last (chunks (execute_loop env ctx a i h w)) = Warning max_iterations_reached \<and>
   filter is_warning (chunks (execute_loop env ctx a i h w)) = [Warning max_iterations_reached] \<and>
   filter is_done (chunks (execute_loop env ctx a i h w)) = []"
proof (induction i h w rule: execute_loop_cases[where env = env and ctx = ctx and a = a])
  case (stop i h w)
  then show ?case by simp
next
  case (throw i h w s w1 e)
  then show ?case by (simp add: execute_loop_throw)
next
  case (finish i h w s w1)
  then show ?case by (simp add: execute_loop_done)
next
  case (step i h w s w1 cs h2 w2)
  let ?r = "execute_loop env ctx a (Suc i) h2 w2"
  note unfold = execute_loop_step[OF step(1-5)]
  from step.prems(1) have len: "length (calls ?r) = maxIterations - Suc i"
    by (simp add: unfold)
  have tail: "raised ?r = None \<and> last (chunks ?r) = Warning max_iterations_reached \<and>
     filter is_warning (chunks ?r) = [Warning max_iterations_reached] \<and>
     filter is_done (chunks ?r) = []"
  proof (cases "Suc i < maxIterations")
    case True
    with len have ne: "calls ?r \<noteq> []" by auto
    with step.prems have "thrown (snd (last (calls ?r))) = None"
      "turn_tool_calls (snd (last (calls ?r))) \<noteq> []"
      by (simp_all add: unfold)
    with step.IH len True show ?thesis by simp
  next
    case False
    then show ?thesis by (simp add: execute_loop_stop)
  qed
  then have ne: "chunks ?r \<noteq> []" by auto
  from run_tools_chunks[OF step(5)] tail ne show ?case
    by (simp add: unfold content_not_warning content_not_done)
qed

lemma looping_stream:
  "req_taskType req = None \<Longrightarrow>
   stream (scripted (\<lambda>n. requests_tool ''call_1'' ''get_current_time'' [])) req None n
     = (\<lparr>yielded = [ToolCall ''get_current_time'' EmptyObject (Some ''call_1'')
                       ''llama-3.3-70b-versatile'',
                     Done (Some ''llama-3.3-70b-versatile'')],
         thrown = None,
         created = [build_params ''llama-3.3-70b-versatile'' req]\<rparr>, Suc n)"
  by (simp add: stream.simps scripted_def requests_tool_def Let_def selectModel_def routing_def
      defaultModel_def try_body_def delta_chunk_def first_delta_def finish_chunk_def
      accumulate_def array_get_def array_set_def example_parse_def)

lemma looping_calls:
  "length (calls (execute_loop (scripted (\<lambda>n. requests_tool ''call_1'' ''get_current_time'' []))
      example_context a i h w)) = maxIterations - i \<and>
   (\<forall>c\<in>set (calls (execute_loop
        (scripted (\<lambda>n. requests_tool ''call_1'' ''get_current_time'' []))
        example_context a i h w)).
      thrown (snd c) = None \<and> turn_tool_calls (snd c) \<noteq> [])"
proof (induction i h w rule: execute_loop_cases[where
      env = "scripted (\<lambda>n. requests_tool ''call_1'' ''get_current_time'' [])"
      and ctx = example_context and a = a])
  case (stop i h w)
  then show ?case by (simp add: execute_loop_stop)
next
  case (throw i h w s w1 e)
  then show ?case by (auto simp: looping_stream example_context_def)
next
  case (finish i h w s w1)
  then show ?case by (auto simp: looping_stream example_context_def)
next
  case (step i h w s w1 cs h2 w2)
  then show ?case by (auto simp: execute_loop_step[OF step(1-5)])
qed

lemma turn_answered_step:
  assumes a: "a < length h"
    and rt: "run_tools env a (turn_tool_calls s)
      (push a (assistant_message env (turn_text s) (turn_tool_calls s)) h) w1 = (cs, h2, w2)"
  shows "turn_answered (turn_request ctx (h ! a), s) (h2 ! a) \<and> length h2 = length h"
proof -
  let ?m = "assistant_message env (turn_text s) (turn_tool_calls s)"
  from a have a': "a < length (push a ?m h)" by simp
  from run_tools_shape[OF rt a'] obtain tms where
    tms: "h2 = (push a ?m h)[a := push a ?m h ! a @ tms]"
      "map role tms = map (\<lambda>tc. ''tool'') (turn_tool_calls s)"
      "map tool_call_id tms = map chunk_id (turn_tool_calls s)"
    by blast
  from tms(1) a have h2: "h2 ! a = h ! a @ ?m # tms" and len: "length h2 = length h"
    by (simp_all add: push_def)
  have "answered (turn_tool_calls s) (?m # tms)"
    using tms(2,3) by (simp add: answered_def assistant_message_def comp_def)
  with h2 len show ?thesis by (simp add: turn_answered_def)
qed

lemma sequencing_loop:
  "a < length h \<Longrightarrow>
   (calls (execute_loop env ctx a i h w) = [] \<longrightarrow> heap (execute_loop env ctx a i h w) ! a = h ! a) \<and>
   (calls (execute_loop env ctx a i h w) \<noteq> [] \<longrightarrow>
      req_messages (fst (hd (calls (execute_loop env ctx a i h w)))) = h ! a) \<and>
   (\<forall>k. Suc k < length (calls (execute_loop env ctx a i h w)) \<longrightarrow>
      requests_tools (calls (execute_loop env ctx a i h w) ! k) \<and>
      turn_answered (calls (execute_loop env ctx a i h w) ! k)
        (req_messages (fst (calls (execute_loop env ctx a i h w) ! Suc k)))) \<and>
   (calls (execute_loop env ctx a i h w) \<noteq> [] \<longrightarrow>
      (if requests_tools (last (calls (execute_loop env ctx a i h w)))
       then turn_answered (last (calls (execute_loop env ctx a i h w)))
              (heap (execute_loop env ctx a i h w) ! a)
       else heap (execute_loop env ctx a i h w) ! a
              = req_messages (fst (last (calls (execute_loop env ctx a i h w))))))"
proof (induction i h w rule: execute_loop_cases[where env = env and ctx = ctx and a = a])
  case (stop i h w)
  then show ?case by (simp add: execute_loop_stop)
next
  case (throw i h w s w1 e)
  then show ?case by (simp add: execute_loop_throw requests_tools_def)
next
  case (finish i h w s w1)
  then show ?case by (simp add: execute_loop_done requests_tools_def)
next
  case (step i h w s w1 cs h2 w2)
  let ?r = "execute_loop env ctx a (Suc i) h2 w2"
  let ?c = "(turn_request ctx (h ! a), s)"
  note unfold = execute_loop_step[OF step(1-5)]
  from turn_answered_step[OF step.prems step(5)]
  have ta: "turn_answered ?c (h2 ! a)" and len: "a < length h2"
    using step.prems by simp_all
  have rq: "requests_tools ?c" using step(3,4) by (simp add: requests_tools_def)
  note IH = step.IH[OF len]
  have cs: "calls (execute_loop env ctx a i h w) = ?c # calls ?r"
    and hp: "heap (execute_loop env ctx a i h w) = heap ?r"
    by (simp_all add: unfold)
  show ?case
  proof (cases "calls ?r = []")
    case True
    with IH ta rq show ?thesis by (simp add: cs hp)
  next
    case False
    with IH have hd: "req_messages (fst (calls ?r ! 0)) = h2 ! a"
      by (simp add: hd_conv_nth)
    have "requests_tools ((?c # calls ?r) ! k) \<and>
          turn_answered ((?c # calls ?r) ! k) (req_messages (fst ((?c # calls ?r) ! Suc k)))"
      if "Suc k < length (?c # calls ?r)" for k
    proof (cases k)
      case 0
      with ta rq hd show ?thesis by simp
    next
      case (Suc j)
      with that IH show ?thesis by simp
    qed
    with IH False show ?thesis by (simp add: cs hp)
  qed
qed




lemma two_turn_run:
  assumes v: "ctx_messages ctx < length h"
    and s1: "stream env (turn_request ctx (h ! ctx_messages ctx)) None w = (s1, w1)"
    and t1: "thrown s1 = None" "turn_tool_calls s1 \<noteq> []"
    and rt: "run_tools env (length h) (turn_tool_calls s1)
         (push (length h) (assistant_message env (turn_text s1) (turn_tool_calls s1))
            (h @ [h ! ctx_messages ctx])) w1 = (cs, h2, w2)"
    and s2: "stream env (turn_request ctx (h2 ! length h)) None w2 = (s2, w3)"
    and t2: "thrown s2 = None" "turn_tool_calls s2 = []"
  shows "execute env ctx h w =
     \<lparr>chunks = filter is_content (yielded s1) @ [Status executing_tools] @ cs
         @ [Status ''\<newline>''] @ filter is_content (yielded s2) @ [Done None],
      raised = None,
      calls = [(turn_request ctx (h ! ctx_messages ctx), s1),
               (turn_request ctx (h2 ! length h), s2)],
      invocations = map (\<lambda>tc. (chunk_tool tc, chunk_arguments tc)) (turn_tool_calls s1),
      heap = h2, world = w3\<rparr>"
proof -
  have lt: "0 < maxIterations" "Suc 0 < maxIterations" by (simp_all add: maxIterations_def)
  let ?h = "h @ [h ! ctx_messages ctx]"
  from s1 have s1': "stream env (turn_request ctx (?h ! length h)) None w = (s1, w1)" by simp
  from v have "execute env ctx h w = execute_loop env ctx (length h) 0 ?h w"
    by (simp add: execute_def)
  also have "\<dots> = (execute_loop env ctx (length h) (Suc 0) h2 w2)
       \<lparr>chunks := filter is_content (yielded s1) @ [Status executing_tools] @ cs
           @ [Status ''\<newline>''] @ chunks (execute_loop env ctx (length h) (Suc 0) h2 w2),
        calls := (turn_request ctx (?h ! length h), s1)
           # calls (execute_loop env ctx (length h) (Suc 0) h2 w2),
        invocations := map (\<lambda>tc. (chunk_tool tc, chunk_arguments tc)) (turn_tool_calls s1)
           @ invocations (execute_loop env ctx (length h) (Suc 0) h2 w2)\<rparr>"
    by (rule execute_loop_step[OF lt(1) s1' t1 rt])
  also have "execute_loop env ctx (length h) (Suc 0) h2 w2 =
     \<lparr>chunks = filter is_content (yielded s2) @ [Done None], raised = None,
      calls = [(turn_request ctx (h2 ! length h), s2)], invocations = [], heap = h2,
      world = w3\<rparr>"
    by (rule execute_loop_done[OF lt(2) s2 t2])
  finally show ?thesis by simp
qed

lemma first_stream:
  "req_taskType req = None \<Longrightarrow> name \<noteq> [] \<Longrightarrow>
   stream (tool_then_answer name reply) req None 0
     = (\<lparr>yielded = [ToolCall name EmptyObject (Some ''call_1'') ''llama-3.3-70b-versatile'',
                     Done (Some ''llama-3.3-70b-versatile'')],
         thrown = None,
         created = [build_params ''llama-3.3-70b-versatile'' req]\<rparr>, 1)"
  by (simp add: stream.simps tool_then_answer_def scripted_def requests_tool_def Let_def
      selectModel_def routing_def defaultModel_def try_body_def delta_chunk_def first_delta_def
      finish_chunk_def accumulate_def array_get_def array_set_def example_parse_def)

lemma second_stream:
  "req_taskType req = None \<Longrightarrow> reply \<noteq> [] \<Longrightarrow>
   stream (tool_then_answer name reply) req None (Suc n)
     = (\<lparr>yielded = [Content reply ''llama-3.3-70b-versatile'',
                     Done (Some ''llama-3.3-70b-versatile'')],
         thrown = None,
         created = [build_params ''llama-3.3-70b-versatile'' req]\<rparr>, Suc (Suc n))"
  by (simp add: stream.simps tool_then_answer_def scripted_def answers_def Let_def
      selectModel_def routing_def defaultModel_def try_body_def content_chunk_def
      finish_chunk_def)


lemma example_valid:
  "ctx_messages example_context < length example_heap"
  "ctx_messages example_context = 0" "length example_heap = 1"
  "ctx_taskType example_context = None" "(example_heap @ [ms]) ! Suc 0 = ms"
  by (simp_all add: example_context_def example_heap_def)

lemma consume_append:
  "snd (consume env model before None toolCalls) = None \<Longrightarrow>
   consume env model (before @ rest) fail toolCalls =
     (fst (consume env model before None toolCalls)
        @ fst (consume env model rest fail (accumulators_after before toolCalls)),
      snd (consume env model rest fail (accumulators_after before toolCalls)))"
proof (induction before arbitrary: toolCalls)
  case Nil
  then show ?case by (simp add: accumulators_after_def)
next
  case (Cons c before)
  let ?t = "fold accumulate (delta_tool_calls c) toolCalls"
  have a: "accumulators_after (c # before) toolCalls = accumulators_after before ?t"
    by (simp add: accumulators_after_def)
  from Cons.prems have "snd (consume env model before None ?t) = None"
    by (auto simp: Let_def split: if_splits prod.splits option.splits)
  from Cons.IH[OF this] Cons.prems show ?case
    unfolding a
    by (auto simp: Let_def split: if_splits prod.splits option.splits)
qed

lemma emit_malformed:
  "Some tc \<in> set toolCalls \<Longrightarrow> acc_name tc \<noteq> [] \<Longrightarrow>
   JSON_parse env (or_else (Some (acc_arguments tc)) ''{}'') = Inl e \<Longrightarrow>
   snd (emit_tool_calls env model toolCalls) \<noteq> None"
proof (induction toolCalls)
  case Nil
  then show ?case by simp
next
  case (Cons x toolCalls)
  show ?case
  proof (cases x)
    case None
    then show ?thesis by simp
  next
    case (Some y)
    with Cons show ?thesis
      by (cases "Some tc = x")
         (auto simp del: or_else.simps split: sum.splits prod.splits)
  qed
qed

lemma emit_no_tool_error:
  "filter is_tool_error (fst (emit_tool_calls env model toolCalls)) = []"
proof (induction toolCalls)
  case Nil
  then show ?case by simp
next
  case (Cons x toolCalls)
  then show ?case by (cases x) (auto split: sum.splits prod.splits)
qed

lemma consume_no_tool_error:
  "filter is_tool_error (fst (consume env model wire fail toolCalls)) = []"
proof (induction wire arbitrary: toolCalls)
  case Nil
  then show ?case by simp
next
  case (Cons c wire)
  from Cons[of "fold accumulate (delta_tool_calls c) toolCalls"]
    emit_no_tool_error[of env model "fold accumulate (delta_tool_calls c) toolCalls"]
  show ?case
    by (auto simp: Let_def split: prod.splits option.splits)
qed

lemma stream_give_up:
  "try_body env fastModel (build_params fastModel request) w = ((ys, Some e), w1) \<Longrightarrow>
   or_else modelName (selectModel env (req_taskType request)) = fastModel \<Longrightarrow>
   stream env request modelName w =
     (\<lparr>yielded = ys, thrown = Some e, created = [build_params fastModel request]\<rparr>, w1)"
  by (simp add: stream.simps[of env request modelName w] Let_def)

lemma stream_retry:
  "try_body env model (build_params model request) w = ((ys, Some e), w1) \<Longrightarrow>
   or_else modelName (selectModel env (req_taskType request)) = model \<Longrightarrow>
   model \<noteq> fastModel \<Longrightarrow>
   created (fst (stream env request modelName w))
     = [build_params model request, build_params fastModel request]"
proof -
  assume a: "try_body env model (build_params model request) w = ((ys, Some e), w1)"
    "or_else modelName (selectModel env (req_taskType request)) = model"
    "model \<noteq> fastModel"
  have fb: "created (fst (stream env request (Some fastModel) v))
      = [build_params fastModel request]" for v
    by (simp add: stream.simps[of env request "Some fastModel" v] stream_fallback_model Let_def
        del: or_else.simps split: prod.splits option.splits)
  from a show ?thesis
    using fb[of w1]
    by (cases "stream env request (Some fastModel) w1")
       (simp add: stream.simps[of env request modelName w] Let_def)
qed

lemma fast_valid:
  "ctx_messages fast_context < length example_heap"
  "ctx_messages fast_context = 0" "ctx_taskType fast_context = Some ''fast''"
  by (simp_all add: fast_context_def example_heap_def)

lemma malformed_try:
  "try_body malformed model (build_params model req) n
     = (([], Some (SyntaxError ''Unexpected end of JSON input'')), Suc n)"
  by (simp add: try_body_def malformed_def scripted_def requests_tool_def delta_chunk_def
      first_delta_def finish_chunk_def accumulate_def array_get_def array_set_def
      example_parse_def Let_def)

lemma malformed_stream_fast:
  "req_taskType req = Some ''fast'' \<Longrightarrow>
   stream malformed req None n
     = (\<lparr>yielded = [], thrown = Some (SyntaxError ''Unexpected end of JSON input''),
         created = [build_params fastModel req]\<rparr>, Suc n)"
  by (simp add: stream.simps[of malformed req None n] malformed_try Let_def
      selectModel_def routing_def fastModel_def)

lemma malformed_stream_default:
  "req_taskType req = None \<Longrightarrow>
   stream malformed req None n
     = (\<lparr>yielded = [], thrown = Some (SyntaxError ''Unexpected end of JSON input''),
         created = [build_params ''llama-3.3-70b-versatile'' req,
                    build_params fastModel req]\<rparr>, Suc (Suc n))"
proof -
  assume t: "req_taskType req = None"
  have m: "selectModel malformed None = ''llama-3.3-70b-versatile''"
    by (simp add: selectModel_def routing_def)
  have fb: "stream malformed req (Some fastModel) (Suc n)
     = (\<lparr>yielded = [], thrown = Some (SyntaxError ''Unexpected end of JSON input''),
         created = [build_params fastModel req]\<rparr>, Suc (Suc n))"
    by (simp add: stream.simps[of malformed req "Some fastModel" "Suc n"] stream_fallback_model
        malformed_try Let_def del: or_else.simps)
  have ne: "''llama-3.3-70b-versatile'' \<noteq> fastModel"
    by (simp add: fastModel_def)
  show ?thesis
    by (simp add: stream.simps[of malformed req None n] t m malformed_try fb Let_def ne)
qed

lemma p_model_build_params: "p_model (build_params model request) = model"
  by (simp add: build_params_def split: option.splits)

lemma consume_fail:
  "snd (consume env model wire (Some e) toolCalls) \<noteq> None"
proof (induction wire arbitrary: toolCalls)
  case Nil
  then show ?case by simp
next
  case (Cons c wire)
  from Cons[of "fold accumulate (delta_tool_calls c) toolCalls"] show ?case
    by (auto simp: Let_def split: prod.splits option.splits)
qed

lemma accumulate_at:
  "array_get (accumulate d toolCalls) j =
     (if tcd_index d = Some j then
        Some \<lparr>acc_id = (case array_get toolCalls j of None \<Rightarrow> tcd_id d | Some a \<Rightarrow> acc_id a),
              acc_name = last_name [d]
                 (case array_get toolCalls j of None \<Rightarrow> [] | Some a \<Rightarrow> acc_name a),
              acc_arguments =
                 (case array_get toolCalls j of None \<Rightarrow> [] | Some a \<Rightarrow> acc_arguments a)
                   @ fragment d\<rparr>
      else array_get toolCalls j)"
  by (cases "tcd_index d")
     (auto simp: accumulate_def array_get_set fragment_def Let_def split: option.splits)

lemma at_Cons:
  "tcd_index d = Some j \<Longrightarrow> deltas_at (d # ds) j = d # deltas_at ds j"
  "tcd_index d \<noteq> Some j \<Longrightarrow> deltas_at (d # ds) j = deltas_at ds j"
  "tcd_index d \<noteq> Some j \<Longrightarrow> id_at (d # ds) j = id_at ds j"
  "tcd_index d \<noteq> Some j \<Longrightarrow> text_at (d # ds) j = text_at ds j"
  "tcd_index d = Some j \<Longrightarrow> id_at (d # ds) j = tcd_id d"
  "tcd_index d = Some j \<Longrightarrow> text_at (d # ds) j = fragment d @ text_at ds j"
  by (simp_all add: deltas_at_def id_at_def text_at_def)

lemma fold_accumulate_at:
  "array_get (fold accumulate ds toolCalls) j =
     (if deltas_at ds j = [] then array_get toolCalls j
      else Some \<lparr>acc_id = (case array_get toolCalls j of
                              None \<Rightarrow> id_at ds j | Some a \<Rightarrow> acc_id a),
                 acc_name = last_name (deltas_at ds j)
                    (case array_get toolCalls j of None \<Rightarrow> [] | Some a \<Rightarrow> acc_name a),
                 acc_arguments =
                    (case array_get toolCalls j of None \<Rightarrow> [] | Some a \<Rightarrow> acc_arguments a)
                      @ text_at ds j\<rparr>)"
proof (induction ds arbitrary: toolCalls)
  case Nil
  then show ?case by (simp add: deltas_at_def)
next
  case (Cons d ds)
  show ?case
  proof (cases "tcd_index d = Some j")
    case True
    have e: "text_at ds j = [] \<and> last_name (deltas_at ds j) n = n" if "deltas_at ds j = []" for n
      using that by (simp add: text_at_def)
    show ?thesis
      using True
      by (auto simp: Cons.IH[of "accumulate d toolCalls"] accumulate_at at_Cons e
          split: option.splits)
  next
    case False
    show ?thesis
      using False
      by (simp add: Cons.IH[of "accumulate d toolCalls"] accumulate_at at_Cons
          split: option.splits)
  qed
qed

lemma array_get_Nil: "array_get [] j = None"
  by (simp add: array_get_def)

lemma reassembled:
  "deltas_at ds j \<noteq> [] \<Longrightarrow>
   array_get (fold accumulate ds []) j =
     Some \<lparr>acc_id = id_at ds j, acc_name = name_at ds j, acc_arguments = text_at ds j\<rparr>"
  by (simp add: fold_accumulate_at name_at_def array_get_Nil)

lemma accumulate_length:
  "length (accumulate d toolCalls) =
     (case tcd_index d of None \<Rightarrow> length toolCalls | Some i \<Rightarrow> max (length toolCalls) (Suc i))"
  by (auto simp: accumulate_def array_set_def Let_def split: option.splits)

lemma fold_accumulate_length_le:
  "\<forall>d\<in>set ds. \<forall>j. tcd_index d = Some j \<longrightarrow> j < n \<Longrightarrow> length toolCalls \<le> n \<Longrightarrow>
   length (fold accumulate ds toolCalls) \<le> n"
proof (induction ds arbitrary: toolCalls)
  case Nil
  then show ?case by simp
next
  case (Cons d ds)
  from Cons.prems have "length (accumulate d toolCalls) \<le> n"
    by (auto simp: accumulate_length split: option.splits)
  with Cons show ?case by simp
qed

lemma reassembled_array:
  assumes below: "\<forall>d\<in>set ds. \<forall>j. tcd_index d = Some j \<longrightarrow> j < n"
    and present: "\<forall>j<n. deltas_at ds j \<noteq> []"
  shows "fold accumulate ds [] =
     map (\<lambda>j. Some \<lparr>acc_id = id_at ds j, acc_name = name_at ds j,
                     acc_arguments = text_at ds j\<rparr>) [0..<n]"
proof -
  have le: "length (fold accumulate ds []) \<le> n"
    using below by (intro fold_accumulate_length_le) simp_all
  have ge: "n \<le> length (fold accumulate ds [])"
  proof (cases n)
    case 0
    then show ?thesis by simp
  next
    case (Suc m)
    with present have "deltas_at ds m \<noteq> []" by simp
    from reassembled[OF this] have "m < length (fold accumulate ds [])"
      by (simp add: array_get_def split: if_splits)
    with Suc show ?thesis by simp
  qed
  from le ge have len: "length (fold accumulate ds []) = n" by simp
  show ?thesis
  proof (intro nth_equalityI)
    show "length (fold accumulate ds []) = length (map (\<lambda>j. Some \<lparr>acc_id = id_at ds j,
        acc_name = name_at ds j, acc_arguments = text_at ds j\<rparr>) [0..<n])"
      using len by simp
  next
    fix j assume "j < length (fold accumulate ds [])"
    with len have j: "j < n" by simp
    with present have "deltas_at ds j \<noteq> []" by simp
    from reassembled[OF this] j len
    show "fold accumulate ds [] ! j = map (\<lambda>j. Some \<lparr>acc_id = id_at ds j,
        acc_name = name_at ds j, acc_arguments = text_at ds j\<rparr>) [0..<n] ! j"
      by (simp add: array_get_def)
  qed
qed

lemma emit_parsed:
  "\<forall>j\<in>set js. acc_name (r j) \<noteq> [] \<longrightarrow>
      JSON_parse env (or_else (Some (acc_arguments (r j))) ''{}'') = Inr (args j) \<Longrightarrow>
   emit_tool_calls env model (map (\<lambda>j. Some (r j)) js) =
     (map (\<lambda>j. ToolCall (acc_name (r j)) (args j) (acc_id (r j)) model)
        (filter (\<lambda>j. acc_name (r j) \<noteq> []) js), None)"
  by (induction js) (simp_all del: or_else.simps)

lemma consume_no_finish:
  "\<forall>c\<in>set wire. finish_reason c \<noteq> Some ''tool_calls'' \<Longrightarrow>
   consume env model wire fail toolCalls = (forwarded_content model wire, fail)"
  by (induction wire arbitrary: toolCalls) (simp_all add: forwarded_content_def Let_def)

lemma accumulators_after_deltas:
  "accumulators_after wire toolCalls = fold accumulate (wire_deltas wire) toolCalls"
  by (induction wire arbitrary: toolCalls) (simp_all add: accumulators_after_def wire_deltas_def)

lemma wire_deltas_append:
  "wire_deltas (wire @ [fin]) = wire_deltas wire @ delta_tool_calls fin"
  by (simp add: wire_deltas_def)

lemma forwarded_content_append:
  "forwarded_content model (wire @ [fin]) =
     forwarded_content model wire @ forwarded_content model [fin]"
  by (simp add: forwarded_content_def)

lemma consume_emits:
  assumes nofin: "\<forall>c\<in>set wire. finish_reason c \<noteq> Some ''tool_calls''"
    and fin: "finish_reason fin = Some ''tool_calls''"
    and ds: "ds = wire_deltas (wire @ [fin])"
    and below: "\<forall>d\<in>set ds. \<forall>j. tcd_index d = Some j \<longrightarrow> j < n"
    and present: "\<forall>j<n. deltas_at ds j \<noteq> []"
  shows "consume env model (wire @ [fin]) fail [] =
       (case emit_tool_calls env model
               (map (\<lambda>j. Some \<lparr>acc_id = id_at ds j, acc_name = name_at ds j,
                                acc_arguments = text_at ds j\<rparr>) [0..<n]) of
          (es, None) \<Rightarrow> (forwarded_content model (wire @ [fin]) @ es, fail)
        | (es, Some e) \<Rightarrow> (forwarded_content model (wire @ [fin]) @ es, Some e))"
proof -
  let ?r = "\<lambda>j. \<lparr>acc_id = id_at ds j, acc_name = name_at ds j, acc_arguments = text_at ds j\<rparr>"
  have before: "consume env model wire None [] = (forwarded_content model wire, None)"
    using nofin by (rule consume_no_finish)
  have accs: "fold accumulate (delta_tool_calls fin) (accumulators_after wire [])
      = map (\<lambda>j. Some (?r j)) [0..<n]"
    using reassembled_array[OF below present]
    by (simp add: accumulators_after_deltas ds wire_deltas_append)
  have last: "consume env model [fin] fail (accumulators_after wire [])
      = (case emit_tool_calls env model (map (\<lambda>j. Some (?r j)) [0..<n]) of
          (es, None) \<Rightarrow> (forwarded_content model [fin] @ es, fail)
        | (es, Some e) \<Rightarrow> (forwarded_content model [fin] @ es, Some e))"
    using fin by (simp add: accs forwarded_content_def Let_def split: prod.splits option.splits)
  have "consume env model (wire @ [fin]) fail [] =
      (forwarded_content model wire
         @ fst (consume env model [fin] fail (accumulators_after wire [])),
       snd (consume env model [fin] fail (accumulators_after wire [])))"
    using consume_append[where env = env and model = model and before = wire
        and toolCalls = "[]" and rest = "[fin]" and fail = fail] before
    by (simp del: consume.simps)
  then show ?thesis
    unfolding last
    by (simp add: forwarded_content_append del: consume.simps
        split: prod.splits option.splits)
qed

lemma filter_upt_eq: "filter (\<lambda>k. k = j) [0..<n] = (if j < n then [j] else [])"
  by (induction n) auto

lemma deltas_at_whole:
  "deltas_at (map (whole_delta ds) [0..<n]) j = (if j < n then [whole_delta ds j] else [])"
proof -
  have "deltas_at (map (whole_delta ds) [0..<n]) j
      = map (whole_delta ds) (filter (\<lambda>k. k = j) [0..<n])"
    by (simp add: deltas_at_def filter_map comp_def whole_delta_def)
  then show ?thesis by (simp add: filter_upt_eq)
qed

lemma whole_same:
  "j < n \<Longrightarrow> name_at (map (whole_delta ds) [0..<n]) j = name_at ds j"
  "j < n \<Longrightarrow> text_at (map (whole_delta ds) [0..<n]) j = text_at ds j"
  "j < n \<Longrightarrow> id_at (map (whole_delta ds) [0..<n]) j = id_at ds j"
  by (simp_all add: name_at_def[of "map (whole_delta ds) [0..<n]"]
      text_at_def[of "map (whole_delta ds) [0..<n]"] id_at_def[of "map (whole_delta ds) [0..<n]"]
      deltas_at_whole whole_delta_def fragment_def)

section \<open>The claims\<close>

text \<open>
  C9. For every request, \<open>complete\<close> is the fold of \<open>stream\<close>: when the stream
  does not throw, its content is the concatenation, in emission order, of the
  contents of the content chunks and its tool calls are the tool-call chunks in
  emission order; when the stream throws, \<open>complete\<close> throws the same error.
  The outside state after \<open>complete\<close> is the one after the single \<open>stream\<close>
  call, so \<open>complete\<close> reaches the endpoint through that call only.
\<close>

theorem complete_refines_spec:
  "complete env request modelName w = complete_spec env request modelName w"
  by (simp add: complete_def complete_spec_def complete_fold split: prod.splits option.splits)

text \<open>
  C10. For every context, store and outside state, every array that exists
  when \<open>execute\<close> is called, the caller's \<open>context.messages\<close> among them, has
  the same elements after the run: the Orchestrator pushes its assistant and
  tool messages onto the copy it made at a new address.
\<close>

theorem caller_messages_unchanged:
  "take (length h) (heap (execute env context h w)) = h"
proof (cases "ctx_messages context < length h")
  case True
  let ?r = "execute_loop env context (length h) 0 (h @ [h ! ctx_messages context]) w"
  have "length (heap ?r) = Suc (length h)"
    and "\<forall>b. b \<noteq> length h \<longrightarrow> heap ?r ! b = (h @ [h ! ctx_messages context]) ! b"
    using execute_loop_frame[of env "context" "length h" 0 "h @ [h ! ctx_messages context]" w]
    by simp_all
  then have "take (length h) (heap ?r) = h"
    by (intro nth_equalityI) (auto simp: nth_append)
  with True show ?thesis by (simp add: execute_def)
next
  case False
  then show ?thesis by (simp add: execute_def)
qed

text \<open>
  C7. Take any wire stream whose last chunk, and no other, signals that the
  model requests tools, and whose tool-call entries use the indices below
  \<open>n\<close>, each at least once, delivered in any granularity and interleaved in
  any way with content and with entries of other indices. Then what the
  Gateway's loop yields and throws is the content chunks followed by what it
  yields and throws when every index's whole argument text arrives as a single
  fragment. When the text of every named index parses, the loop yields, after
  the content chunks, exactly one tool-call chunk per named index, in index
  order, whose arguments are the parse of the concatenation, in arrival order,
  of the fragments sent for that index, and it throws nothing of its own.
\<close>

theorem fragments_concatenate:
  "(\<forall>c\<in>set wire. finish_reason c \<noteq> Some ''tool_calls'') \<and>
   finish_reason fin = Some ''tool_calls'' \<and>
   ds = wire_deltas (wire @ [fin]) \<and>
   (\<forall>d\<in>set ds. \<forall>j. tcd_index d = Some j \<longrightarrow> j < n) \<and>
   (\<forall>j<n. deltas_at ds j \<noteq> []) \<longrightarrow>
     consume env model (wire @ [fin]) fail [] =
       (forwarded_content model (wire @ [fin])
          @ fst (consume env model [whole_chunk ds n] fail []),
        snd (consume env model [whole_chunk ds n] fail [])) \<and>
     ((\<forall>j<n. name_at ds j \<noteq> [] \<longrightarrow>
         JSON_parse env (or_else (Some (text_at ds j)) ''{}'') = Inr (args j)) \<longrightarrow>
        consume env model (wire @ [fin]) fail [] =
          (forwarded_content model (wire @ [fin]) @
             map (\<lambda>j. ToolCall (name_at ds j) (args j) (id_at ds j) model)
               (filter (\<lambda>j. name_at ds j \<noteq> []) [0..<n]),
           fail) \<and>
        consume env model [whole_chunk ds n] fail [] =
          (map (\<lambda>j. ToolCall (name_at ds j) (args j) (id_at ds j) model)
             (filter (\<lambda>j. name_at ds j \<noteq> []) [0..<n]),
           fail))"
proof (intro impI, elim conjE)
  assume nofin: "\<forall>c\<in>set wire. finish_reason c \<noteq> Some ''tool_calls''"
    and fin: "finish_reason fin = Some ''tool_calls''"
    and ds: "ds = wire_deltas (wire @ [fin])"
    and below: "\<forall>d\<in>set ds. \<forall>j. tcd_index d = Some j \<longrightarrow> j < n"
    and present: "\<forall>j<n. deltas_at ds j \<noteq> []"
  let ?r = "\<lambda>j. \<lparr>acc_id = id_at ds j, acc_name = name_at ds j, acc_arguments = text_at ds j\<rparr>"
  let ?ws = "map (whole_delta ds) [0..<n]"
  let ?calls = "map (\<lambda>j. ToolCall (name_at ds j) (args j) (id_at ds j) model)
             (filter (\<lambda>j. name_at ds j \<noteq> []) [0..<n])"
  note split = consume_emits[OF nofin fin ds below present, of env model fail]
  have w1: "\<forall>c\<in>set ([]::wire_chunk list). finish_reason c \<noteq> Some ''tool_calls''" by simp
  have w2: "finish_reason (whole_chunk ds n) = Some ''tool_calls''"
    by (simp add: whole_chunk_def)
  have w3: "?ws = wire_deltas ([] @ [whole_chunk ds n])"
    by (simp add: wire_deltas_def whole_chunk_def)
  have w4: "\<forall>d\<in>set ?ws. \<forall>j. tcd_index d = Some j \<longrightarrow> j < n"
    by (auto simp: whole_delta_def)
  have w5: "\<forall>j<n. deltas_at ?ws j \<noteq> []"
    by (simp add: deltas_at_whole)
  have same: "map (\<lambda>j. Some \<lparr>acc_id = id_at ?ws j, acc_name = name_at ?ws j,
                                acc_arguments = text_at ?ws j\<rparr>) [0..<n]
      = map (\<lambda>j. Some (?r j)) [0..<n]"
    by (simp add: whole_same)
  have whole: "consume env model [whole_chunk ds n] fail [] =
       (case emit_tool_calls env model (map (\<lambda>j. Some (?r j)) [0..<n]) of
          (es, None) \<Rightarrow> (es, fail)
        | (es, Some e) \<Rightarrow> (es, Some e))"
    using consume_emits[OF w1 w2 w3 w4 w5, of env model fail]
    unfolding same
    by (simp add: forwarded_content_def whole_chunk_def del: consume.simps
        split: prod.splits option.splits)
  have eq: "consume env model (wire @ [fin]) fail [] =
       (forwarded_content model (wire @ [fin])
          @ fst (consume env model [whole_chunk ds n] fail []),
        snd (consume env model [whole_chunk ds n] fail []))"
    unfolding split whole by (simp split: prod.splits option.splits)
  have pinned: "consume env model (wire @ [fin]) fail [] =
          (forwarded_content model (wire @ [fin]) @ ?calls, fail) \<and>
        consume env model [whole_chunk ds n] fail [] = (?calls, fail)"
    if parses: "\<forall>j<n. name_at ds j \<noteq> [] \<longrightarrow>
         JSON_parse env (or_else (Some (text_at ds j)) ''{}'') = Inr (args j)"
  proof -
    have "emit_tool_calls env model (map (\<lambda>j. Some (?r j)) [0..<n]) = (?calls, None)"
      using emit_parsed[where js = "[0..<n]" and r = ?r and env = env and args = args
          and model = model] parses
      by simp
    then show ?thesis unfolding split whole by simp
  qed
  from eq pinned show "consume env model (wire @ [fin]) fail [] =
       (forwarded_content model (wire @ [fin])
          @ fst (consume env model [whole_chunk ds n] fail []),
        snd (consume env model [whole_chunk ds n] fail [])) \<and>
     ((\<forall>j<n. name_at ds j \<noteq> [] \<longrightarrow>
         JSON_parse env (or_else (Some (text_at ds j)) ''{}'') = Inr (args j)) \<longrightarrow>
        consume env model (wire @ [fin]) fail [] =
          (forwarded_content model (wire @ [fin]) @ ?calls, fail) \<and>
        consume env model [whole_chunk ds n] fail [] = (?calls, fail))"
    by blast
qed

theorem fragments_concatenate_witness:
  \<open>consume (scripted (\<lambda>n. answers [])) fastModel
      ([content_chunk ''Checking'',
        delta_chunk (first_delta 0 (Some ''call_1'') (Some ''lookup'') ''{"a":''),
        delta_chunk (first_delta 1 (Some ''call_2'') (Some ''get_current_time'') []),
        delta_chunk (next_delta 0 ''1}'')] @ [finish_chunk ''tool_calls'']) None []
     = ([Content ''Checking'' fastModel,
         ToolCall ''lookup'' ObjectA1 (Some ''call_1'') fastModel,
         ToolCall ''get_current_time'' EmptyObject (Some ''call_2'') fastModel], None) \<and>
   consume (scripted (\<lambda>n. answers [])) fastModel
      [whole_chunk
         [first_delta 0 (Some ''call_1'') (Some ''lookup'') ''{"a":'',
          first_delta 1 (Some ''call_2'') (Some ''get_current_time'') [],
          next_delta 0 ''1}''] 2] None []
     = ([ToolCall ''lookup'' ObjectA1 (Some ''call_1'') fastModel,
         ToolCall ''get_current_time'' EmptyObject (Some ''call_2'') fastModel], None) \<and>
   whole_delta
      [first_delta 0 (Some ''call_1'') (Some ''lookup'') ''{"a":'',
       first_delta 1 (Some ''call_2'') (Some ''get_current_time'') [],
       next_delta 0 ''1}''] 0
     = first_delta 0 (Some ''call_1'') (Some ''lookup'') ''{"a":1}''\<close>
proof -
  let ?E = "scripted (\<lambda>n. answers [])"
  let ?d0 = \<open>first_delta 0 (Some ''call_1'') (Some ''lookup'') ''{"a":''\<close>
  let ?d1 = "first_delta 1 (Some ''call_2'') (Some ''get_current_time'') []"
  let ?d2 = "next_delta 0 ''1}''"
  let ?wire = "[content_chunk ''Checking'', delta_chunk ?d0, delta_chunk ?d1, delta_chunk ?d2]"
  let ?fin = "finish_chunk ''tool_calls''"
  let ?ds = "[?d0, ?d1, ?d2]"
  let ?args = "\<lambda>j::nat. if j = 0 then ObjectA1 else EmptyObject"
  note defs = deltas_at_def name_at_def text_at_def id_at_def fragment_def first_delta_def
    next_delta_def
  have two: "(2::nat) = Suc (Suc 0)" by simp
  have hyp: "(\<forall>c\<in>set ?wire. finish_reason c \<noteq> Some ''tool_calls'') \<and>
     finish_reason ?fin = Some ''tool_calls'' \<and>
     ?ds = wire_deltas (?wire @ [?fin]) \<and>
     (\<forall>d\<in>set ?ds. \<forall>j. tcd_index d = Some j \<longrightarrow> j < 2) \<and>
     (\<forall>j<2. deltas_at ?ds j \<noteq> [])"
    unfolding two All_less_Suc
    by (simp add: defs content_chunk_def delta_chunk_def finish_chunk_def wire_deltas_def)
  have parses: "\<forall>j<2. name_at ?ds j \<noteq> [] \<longrightarrow>
        JSON_parse ?E (or_else (Some (text_at ?ds j)) ''{}'') = Inr (?args j)"
    unfolding two All_less_Suc
    by (simp add: defs scripted_def example_parse_def)
  note applied = fragments_concatenate[where wire = ?wire and fin = ?fin and ds = ?ds and n = 2
      and env = ?E and args = ?args and model = fastModel and fail = None, THEN mp, OF hyp,
      THEN conjunct2, THEN mp, OF parses]
  have fc: "forwarded_content fastModel (?wire @ [?fin]) = [Content ''Checking'' fastModel]"
    by (simp add: forwarded_content_def content_chunk_def delta_chunk_def finish_chunk_def)
  have calls: "map (\<lambda>j. ToolCall (name_at ?ds j) (?args j) (id_at ?ds j) fastModel)
            (filter (\<lambda>j. name_at ?ds j \<noteq> []) [0..<2])
       = [ToolCall ''lookup'' ObjectA1 (Some ''call_1'') fastModel,
          ToolCall ''get_current_time'' EmptyObject (Some ''call_2'') fastModel]"
    unfolding two by (simp add: defs)
  have whole: \<open>whole_delta ?ds 0 = first_delta 0 (Some ''call_1'') (Some ''lookup'') ''{"a":1}''\<close>
    by (simp add: whole_delta_def defs)
  from applied show ?thesis
    unfolding fc calls using whole by simp
qed

text \<open>
  C2. For every call of \<open>stream\<close>: when the body of \<open>try\<close> throws and the
  model in use is not the fallback model, the whole request is sent once more,
  to the fallback model, and what that second attempt yields and throws is
  what \<open>stream\<close> yields and throws after the chunks of the first; when the
  model in use is the fallback model, the error is thrown to the caller. The
  endpoint is called at most twice, and only with the model in use and the
  fallback model. The body of \<open>try\<close> throws whenever the call of the endpoint
  throws or the wire stream ends by throwing.
\<close>

theorem fallback_once:
  "(try_body env (or_else modelName (selectModel env (req_taskType request)))
      (build_params (or_else modelName (selectModel env (req_taskType request))) request) w
      = ((ys, Some e), w1) \<longrightarrow>
      (or_else modelName (selectModel env (req_taskType request)) \<noteq> fastModel \<longrightarrow>
         (\<exists>cs err w2.
            try_body env fastModel (build_params fastModel request) w1 = ((cs, err), w2) \<and>
            stream env request modelName w =
              (\<lparr>yielded = ys @ cs, thrown = err,
                created = [build_params (or_else modelName
                             (selectModel env (req_taskType request))) request,
                           build_params fastModel request]\<rparr>, w2))) \<and>
      (or_else modelName (selectModel env (req_taskType request)) = fastModel \<longrightarrow>
         stream env request modelName w =
           (\<lparr>yielded = ys, thrown = Some e,
             created = [build_params fastModel request]\<rparr>, w1))) \<and>
   length (created (fst (stream env request modelName w))) \<le> 2 \<and>
   set (map p_model (created (fst (stream env request modelName w))))
     \<subseteq> {or_else modelName (selectModel env (req_taskType request)), fastModel} \<and>
   (client_create env params v = (Inl e, v') \<longrightarrow>
      try_body env model params v = (([], Some e), v')) \<and>
   (client_create env params v = (Inr (wire, Some e), v') \<longrightarrow>
      (\<exists>zs e'. try_body env model params v = ((zs, Some e'), v')))"
proof -
  let ?model = "or_else modelName (selectModel env (req_taskType request))"
  have fb: "stream env request (Some fastModel) v =
      (case try_body env fastModel (build_params fastModel request) v of
         ((cs, err), w2) \<Rightarrow>
           (\<lparr>yielded = cs, thrown = err, created = [build_params fastModel request]\<rparr>, w2))" for v
    by (simp add: stream.simps[of env request "Some fastModel" v] stream_fallback_model Let_def
        del: or_else.simps split: prod.splits option.splits)
  have main: "(try_body env ?model (build_params ?model request) w = ((ys, Some e), w1) \<longrightarrow>
      (?model \<noteq> fastModel \<longrightarrow>
         (\<exists>cs err w2.
            try_body env fastModel (build_params fastModel request) w1 = ((cs, err), w2) \<and>
            stream env request modelName w =
              (\<lparr>yielded = ys @ cs, thrown = err,
                created = [build_params ?model request,
                           build_params fastModel request]\<rparr>, w2))) \<and>
      (?model = fastModel \<longrightarrow>
         stream env request modelName w =
           (\<lparr>yielded = ys, thrown = Some e,
             created = [build_params fastModel request]\<rparr>, w1))) \<and>
   length (created (fst (stream env request modelName w))) \<le> 2 \<and>
   set (map p_model (created (fst (stream env request modelName w))))
     \<subseteq> {?model, fastModel}"
    by (cases "try_body env ?model (build_params ?model request) w")
       (auto simp: stream.simps[of env request modelName w] fb Let_def build_params_def
          split: prod.splits option.splits)
  have refused: "client_create env params v = (Inl e, v') \<longrightarrow>
      try_body env model params v = (([], Some e), v')"
    by (simp add: try_body_def)
  have broken: "client_create env params v = (Inr (wire, Some e), v') \<longrightarrow>
      (\<exists>zs e'. try_body env model params v = ((zs, Some e'), v'))"
  proof
    assume c: "client_create env params v = (Inr (wire, Some e), v')"
    from consume_fail[of env model wire e "[]"] obtain zs e' where
      "consume env model wire (Some e) [] = (zs, Some e')"
      by (cases "consume env model wire (Some e) []") auto
    with c show "\<exists>zs e'. try_body env model params v = ((zs, Some e'), v')"
      by (simp add: try_body_def)
  qed
  from main refused broken show ?thesis by blast
qed

theorem fallback_once_witness:
  "stream (scripted (\<lambda>n. Inl (Error ''connection refused'')))
      (turn_request example_context []) None 0
     = (\<lparr>yielded = [], thrown = Some (Error ''connection refused''),
         created = [build_params ''llama-3.3-70b-versatile'' (turn_request example_context []),
                    build_params fastModel (turn_request example_context [])]\<rparr>, 2) \<and>
   stream (scripted (\<lambda>n. Inl (Error ''connection refused'')))
      (turn_request fast_context []) None 0
     = (\<lparr>yielded = [], thrown = Some (Error ''connection refused''),
         created = [build_params fastModel (turn_request fast_context [])]\<rparr>, 1) \<and>
   client_create (scripted (\<lambda>n. Inl (Error ''connection refused'')))
      (build_params fastModel (turn_request fast_context [])) 0
     = (Inl (Error ''connection refused''), 1) \<and>
   try_body (scripted (\<lambda>n. Inl (Error ''connection refused''))) fastModel
      (build_params fastModel (turn_request fast_context [])) 0
     = (([], Some (Error ''connection refused'')), 1)"
proof -
  let ?E = "scripted (\<lambda>n. Inl (Error ''connection refused''))"
  let ?R = "turn_request example_context []"
  let ?F = "turn_request fast_context []"
  have m: "or_else None (selectModel ?E (req_taskType ?R)) = ''llama-3.3-70b-versatile''"
    by (simp add: selectModel_def routing_def example_context_def)
  have f: "or_else None (selectModel ?E (req_taskType ?F)) = fastModel"
    by (simp add: selectModel_def routing_def fast_context_def fastModel_def)
  have t: "try_body ?E model (build_params model req) n
             = (([], Some (Error ''connection refused'')), Suc n)" for model req n
    by (simp add: try_body_def scripted_def)
  have ne: "''llama-3.3-70b-versatile'' \<noteq> fastModel"
    by (simp add: fastModel_def)
  from fallback_once[where env = ?E and request = ?R and modelName = None and w = 0
      and ys = "[]" and e = "Error ''connection refused''" and ?w1.0 = 1,
      THEN conjunct1, unfolded m] t[of _ ?R 0] ne
  have 1: "\<exists>cs err w2.
            try_body ?E fastModel (build_params fastModel ?R) 1 = ((cs, err), w2) \<and>
            stream ?E ?R None 0 =
              (\<lparr>yielded = [] @ cs, thrown = err,
                created = [build_params ''llama-3.3-70b-versatile'' ?R,
                           build_params fastModel ?R]\<rparr>, w2)"
    by simp
  from fallback_once[where env = ?E and request = ?F and modelName = None and w = 0
      and ys = "[]" and e = "Error ''connection refused''" and ?w1.0 = 1,
      THEN conjunct1, unfolded f] t[of _ ?F 0]
  have 2: "stream ?E ?F None 0 =
           (\<lparr>yielded = [], thrown = Some (Error ''connection refused''),
             created = [build_params fastModel ?F]\<rparr>, 1)"
    by simp
  have c: "client_create ?E (build_params fastModel ?F) 0
      = (Inl (Error ''connection refused''), 1)"
    by (simp add: scripted_def)
  from fallback_once[where env = ?E and params = "build_params fastModel ?F" and v = 0
      and v' = 1 and e = "Error ''connection refused''" and model = fastModel,
      THEN conjunct2, THEN conjunct2, THEN conjunct2, THEN conjunct1] c
  have 3: "try_body ?E fastModel (build_params fastModel ?F) 0
      = (([], Some (Error ''connection refused'')), 1)"
    by simp
  from 1 2 3 c show ?thesis by (auto simp: t)
qed

text \<open>
  C5. When the caller's array exists and the first Gateway call of a run
  returns without throwing and yields no tool-call chunk, \<open>execute\<close> yields the
  content chunks of that call followed by one \<open>done\<close> chunk, which is its only
  \<open>done\<close> chunk, throws nothing, has called the Gateway once and has invoked no
  tool.
\<close>

theorem no_tool_calls_done:
  "ctx_messages ctx < length h \<and>
   stream env (turn_request ctx (h ! ctx_messages ctx)) None w = (s, w1) \<and>
   thrown s = None \<and> turn_tool_calls s = [] \<longrightarrow>
     chunks (execute env ctx h w) = filter is_content (yielded s) @ [Done None] \<and>
     filter is_done (chunks (execute env ctx h w)) = [Done None] \<and>
     raised (execute env ctx h w) = None \<and>
     calls (execute env ctx h w) = [(turn_request ctx (h ! ctx_messages ctx), s)] \<and>
     invocations (execute env ctx h w) = [] \<and>
     world (execute env ctx h w) = w1"
proof (intro impI)
  assume a: "ctx_messages ctx < length h \<and>
   stream env (turn_request ctx (h ! ctx_messages ctx)) None w = (s, w1) \<and>
   thrown s = None \<and> turn_tool_calls s = []"
  have lt: "0 < maxIterations" by (simp add: maxIterations_def)
  from a have st: "stream env (turn_request ctx ((h @ [h ! ctx_messages ctx]) ! length h)) None w
      = (s, w1)"
    by simp
  from a have "execute env ctx h w =
     execute_loop env ctx (length h) 0 (h @ [h ! ctx_messages ctx]) w"
    by (simp add: execute_def)
  also from a have "\<dots> = \<lparr>chunks = filter is_content (yielded s) @ [Done None], raised = None,
      calls = [(turn_request ctx ((h @ [h ! ctx_messages ctx]) ! length h), s)],
      invocations = [], heap = h @ [h ! ctx_messages ctx], world = w1\<rparr>"
    by (intro execute_loop_done[OF lt st]) simp_all
  finally show "chunks (execute env ctx h w) = filter is_content (yielded s) @ [Done None] \<and>
     filter is_done (chunks (execute env ctx h w)) = [Done None] \<and>
     raised (execute env ctx h w) = None \<and>
     calls (execute env ctx h w) = [(turn_request ctx (h ! ctx_messages ctx), s)] \<and>
     invocations (execute env ctx h w) = [] \<and>
     world (execute env ctx h w) = w1"
    by (simp add: content_not_done)
qed

theorem no_tool_calls_done_witness:
  "stream (scripted (\<lambda>n. answers ''4'')) (turn_request example_context (example_heap ! 0)) None 0
     = (\<lparr>yielded = [Content ''4'' ''llama-3.3-70b-versatile'',
                     Done (Some ''llama-3.3-70b-versatile'')],
         thrown = None,
         created = [build_params ''llama-3.3-70b-versatile''
                      (turn_request example_context (example_heap ! 0))]\<rparr>, 1) \<and>
   chunks (execute (scripted (\<lambda>n. answers ''4'')) example_context example_heap 0)
     = [Content ''4'' ''llama-3.3-70b-versatile'', Done None] \<and>
   raised (execute (scripted (\<lambda>n. answers ''4'')) example_context example_heap 0) = None \<and>
   length (calls (execute (scripted (\<lambda>n. answers ''4'')) example_context example_heap 0)) = 1 \<and>
   invocations (execute (scripted (\<lambda>n. answers ''4'')) example_context example_heap 0) = []"
proof -
  let ?E = "scripted (\<lambda>n. answers ''4'')"
  let ?S = "\<lparr>yielded = [Content ''4'' ''llama-3.3-70b-versatile'',
                     Done (Some ''llama-3.3-70b-versatile'')],
         thrown = None,
         created = [build_params ''llama-3.3-70b-versatile''
                      (turn_request example_context (example_heap ! 0))]\<rparr>"
  have st: "stream ?E (turn_request example_context (example_heap ! 0)) None 0 = (?S, 1)"
    by (simp add: stream.simps scripted_def answers_def example_context_def Let_def
        selectModel_def routing_def defaultModel_def try_body_def content_chunk_def
        finish_chunk_def)
  have v: "ctx_messages example_context < length example_heap"
    by (simp add: example_context_def example_heap_def)
  have c: "ctx_messages example_context = 0" "example_heap \<noteq> []"
    by (simp_all add: example_context_def example_heap_def)
  from no_tool_calls_done[where env = ?E and ctx = example_context and h = example_heap
      and w = 0 and s = ?S and ?w1.0 = 1, unfolded c] v st
  show ?thesis by (simp add: c)
qed

text \<open>
  C8, as the code has it. The claim bounds the length of the \<open>tool_result\<close>
  chunk's content by 203; for a tool that returns 500 characters the content
  has 214, because the rendering of the result is wrapped in \<open>> Result: \<close> and
  a line break.
\<close>

theorem tool_result_content_counterexample:
  "is_tool_result (last (fst (run_tool (scripted (\<lambda>n. answers [])) 0
       (ToolCall ''read_file'' EmptyObject (Some ''call_1'') fastModel) example_heap 0))) \<and>
   length (chunk_content (last (fst (run_tool (scripted (\<lambda>n. answers [])) 0
       (ToolCall ''read_file'' EmptyObject (Some ''call_1'') fastModel) example_heap 0)))) = 214 \<and>
   \<not> length (chunk_content (last (fst (run_tool (scripted (\<lambda>n. answers [])) 0
       (ToolCall ''read_file'' EmptyObject (Some ''call_1'') fastModel) example_heap 0)))) \<le> 203"
  by (simp add: run_tool_def PluginManager_execute_def scripted_def example_tools_def
      formatResult_def)

text \<open>
  C8, amended. For every tool call whose tool returns a string of more than
  200 characters (one of 500 among them), the rendering of the result is its
  first 200 characters followed by \<open>...\<close>, of length 203; the \<open>tool_result\<close>
  chunk's content is \<open>> Result: \<close>, the rendering and a line break, of length
  214; and the tool message appended to the Orchestrator's messages carries
  the whole string and the call's id.
\<close>

theorem tool_result_truncation:
  "PluginManager_execute env (chunk_tool tc) (chunk_arguments tc) w = (Inr (Str s), w') \<and>
   length s > 200 \<longrightarrow>
     formatResult env (Str s) = Inr (take 200 s @ ''...'') \<and>
     length (take 200 s @ ''...'') = 203 \<and>
     run_tool env a tc h w =
       ([ToolStart (chunk_tool tc) (''\<newline>> Running `'' @ chunk_tool tc @ ''`...\<newline>''),
         ToolResult (chunk_tool tc) (''> Result: '' @ take 200 s @ ''...'' @ ''\<newline>'')],
        push a \<lparr>role = ''tool'', content = s, tool_calls = None,
                tool_call_id = chunk_id tc, attachments = []\<rparr> h,
        w') \<and>
     length (''> Result: '' @ take 200 s @ ''...'' @ ''\<newline>'') = 214"
  by (simp add: run_tool_def formatResult_def)

theorem tool_result_truncation_witness:
  "run_tool (scripted (\<lambda>n. answers [])) 0
       (ToolCall ''read_file'' EmptyObject (Some ''call_1'') fastModel) example_heap 0
     = ([ToolStart ''read_file'' ''\<newline>> Running `read_file`...\<newline>'',
         ToolResult ''read_file'' (''> Result: '' @ replicate 200 CHR ''a'' @ ''...\<newline>'')],
        [example_heap ! 0 @
           [\<lparr>role = ''tool'', content = replicate 500 CHR ''a'', tool_calls = None,
             tool_call_id = Some ''call_1'', attachments = []\<rparr>]],
        0) \<and>
   length (replicate 500 CHR ''a'') = 500"
proof -
  let ?E = "scripted (\<lambda>n. answers [])"
  let ?tc = "ToolCall ''read_file'' EmptyObject (Some ''call_1'') fastModel"
  have p: "PluginManager_execute ?E (chunk_tool ?tc) (chunk_arguments ?tc) 0
             = (Inr (Str (replicate 500 CHR ''a'')), 0) \<and> length (replicate 500 CHR ''a'') > 200"
    by (simp add: PluginManager_execute_def scripted_def example_tools_def)
  from tool_result_truncation[where env = ?E and tc = ?tc and w = 0 and w' = 0
      and s = "replicate 500 CHR ''a''" and a = 0 and h = example_heap, THEN mp, OF p]
  show ?thesis by (simp add: push_def example_heap_def)
qed

text \<open>
  C1. In every run of \<open>execute\<close> the Orchestrator calls \<open>gateway.stream\<close> at
  most \<open>maxIterations\<close> times, and \<open>maxIterations\<close> is 10. When the run made
  that many calls and the last of them returned without throwing and yielded
  tool calls, the run throws nothing, its last chunk is the warning, which is
  its only warning, and it has no \<open>done\<close> chunk: it stopped with the warning
  and with no further Gateway call.
\<close>

theorem gateway_calls_bounded:
  "length (calls (execute env ctx h w)) \<le> maxIterations \<and> maxIterations = 10 \<and>
   (length (calls (execute env ctx h w)) = maxIterations \<and>
    thrown (snd (last (calls (execute env ctx h w)))) = None \<and>
    turn_tool_calls (snd (last (calls (execute env ctx h w)))) \<noteq> [] \<longrightarrow>
      raised (execute env ctx h w) = None \<and>
      last (chunks (execute env ctx h w)) = Warning max_iterations_reached \<and>
      filter is_warning (chunks (execute env ctx h w)) = [Warning max_iterations_reached] \<and>
      filter is_done (chunks (execute env ctx h w)) = [])"
proof (cases "ctx_messages ctx < length h")
  case True
  let ?r = "execute_loop env ctx (length h) 0 (h @ [h ! ctx_messages ctx]) w"
  from True have e: "execute env ctx h w = ?r" by (simp add: execute_def)
  have b: "length (calls ?r) \<le> maxIterations"
    using calls_bounded[of env ctx "length h" 0 "h @ [h ! ctx_messages ctx]" w] by simp
  have lt: "0 < maxIterations" by (simp add: maxIterations_def)
  have "length (calls ?r) = maxIterations \<and> thrown (snd (last (calls ?r))) = None \<and>
    turn_tool_calls (snd (last (calls ?r))) \<noteq> [] \<longrightarrow>
      raised ?r = None \<and> last (chunks ?r) = Warning max_iterations_reached \<and>
      filter is_warning (chunks ?r) = [Warning max_iterations_reached] \<and>
      filter is_done (chunks ?r) = []"
    using ceiling_warning[of env ctx "length h" 0 "h @ [h ! ctx_messages ctx]" w] lt
    by simp
  with b show ?thesis unfolding e by (simp add: maxIterations_def)
next
  case False
  then show ?thesis by (simp add: execute_def maxIterations_def)
qed

theorem gateway_calls_bounded_witness:
  "length (calls (execute (scripted (\<lambda>n. requests_tool ''call_1'' ''get_current_time'' []))
      example_context example_heap 0)) = 10 \<and>
   thrown (snd (last (calls (execute
      (scripted (\<lambda>n. requests_tool ''call_1'' ''get_current_time'' []))
      example_context example_heap 0)))) = None \<and>
   turn_tool_calls (snd (last (calls (execute
      (scripted (\<lambda>n. requests_tool ''call_1'' ''get_current_time'' []))
      example_context example_heap 0)))) \<noteq> [] \<and>
   raised (execute (scripted (\<lambda>n. requests_tool ''call_1'' ''get_current_time'' []))
      example_context example_heap 0) = None \<and>
   last (chunks (execute (scripted (\<lambda>n. requests_tool ''call_1'' ''get_current_time'' []))
      example_context example_heap 0)) = Warning max_iterations_reached"
proof -
  let ?E = "scripted (\<lambda>n. requests_tool ''call_1'' ''get_current_time'' [])"
  let ?r = "execute ?E example_context example_heap 0"
  have e: "?r = execute_loop ?E example_context (length example_heap) 0
      (example_heap @ [example_heap ! ctx_messages example_context]) 0"
    by (simp add: execute_def example_context_def example_heap_def)
  have n: "length (calls ?r) = maxIterations"
    unfolding e using looping_calls[of "length example_heap" 0] by simp
  then have "calls ?r \<noteq> []" by (auto simp: maxIterations_def)
  then have "last (calls ?r) \<in> set (calls ?r)" by simp
  then have l: "thrown (snd (last (calls ?r))) = None \<and>
      turn_tool_calls (snd (last (calls ?r))) \<noteq> []"
    unfolding e using looping_calls[of "length example_heap" 0] by blast
  from gateway_calls_bounded[of ?E example_context example_heap 0] n l
  show ?thesis by simp
qed

text \<open>
  C4. For every run and every Gateway call of the run that returned without
  throwing and yielded tool calls: the messages of the next Gateway call's
  request (or, when the run makes no further call, the Orchestrator's messages
  at the end of the run) are the messages of this call's request, then the
  assistant message carrying the requested calls' ids, then exactly one tool
  message per requested call, in request order, each tagged with that call's
  id.
\<close>

theorem role_sequencing:
  "k < length (calls (execute env ctx h w)) \<and>
   requests_tools (calls (execute env ctx h w) ! k) \<longrightarrow>
     turn_answered (calls (execute env ctx h w) ! k)
       (if Suc k < length (calls (execute env ctx h w))
        then req_messages (fst (calls (execute env ctx h w) ! Suc k))
        else heap (execute env ctx h w) ! length h)"
proof (cases "ctx_messages ctx < length h")
  case True
  let ?r = "execute_loop env ctx (length h) 0 (h @ [h ! ctx_messages ctx]) w"
  from True have e: "execute env ctx h w = ?r" by (simp add: execute_def)
  have a: "length h < length (h @ [h ! ctx_messages ctx])" by simp
  note L = sequencing_loop[OF a, of env ctx 0 w]
  show ?thesis
  proof (intro impI, elim conjE)
    assume k: "k < length (calls (execute env ctx h w))"
      and rq: "requests_tools (calls (execute env ctx h w) ! k)"
    show "turn_answered (calls (execute env ctx h w) ! k)
       (if Suc k < length (calls (execute env ctx h w))
        then req_messages (fst (calls (execute env ctx h w) ! Suc k))
        else heap (execute env ctx h w) ! length h)"
    proof (cases "Suc k < length (calls ?r)")
      case True
      with L show ?thesis unfolding e by simp
    next
      case False
      with k have kk: "k = length (calls ?r) - 1" and ne: "calls ?r \<noteq> []"
        unfolding e by auto
      then have last: "calls ?r ! k = last (calls ?r)"
        by (simp add: last_conv_nth)
      from L ne have "if requests_tools (last (calls ?r))
          then turn_answered (last (calls ?r)) (heap ?r ! length h)
          else heap ?r ! length h = req_messages (fst (last (calls ?r)))"
        by blast
      moreover from rq have "requests_tools (last (calls ?r))"
        unfolding e last .
      ultimately have "turn_answered (last (calls ?r)) (heap ?r ! length h)"
        by simp
      with False last show ?thesis unfolding e by simp
    qed
  qed
next
  case False
  then show ?thesis by (simp add: execute_def)
qed

theorem role_sequencing_witness:
  "requests_tools (calls (execute (tool_then_answer ''get_current_time'' ''noon'')
       example_context example_heap 0) ! 0) \<and>
   length (calls (execute (tool_then_answer ''get_current_time'' ''noon'')
       example_context example_heap 0)) = 2 \<and>
   req_messages (fst (calls (execute (tool_then_answer ''get_current_time'' ''noon'')
       example_context example_heap 0) ! 1))
     = [\<lparr>role = ''user'', content = ''What time is it?'', tool_calls = None,
         tool_call_id = None, attachments = []\<rparr>,
        \<lparr>role = ''assistant'', content = [],
         tool_calls = Some [\<lparr>tce_id = Some ''call_1'', tce_name = ''get_current_time'',
                             tce_arguments = ''{}''\<rparr>],
         tool_call_id = None, attachments = []\<rparr>,
        \<lparr>role = ''tool'', content = ''12:00'', tool_calls = None,
         tool_call_id = Some ''call_1'', attachments = []\<rparr>] \<and>
   turn_answered (calls (execute (tool_then_answer ''get_current_time'' ''noon'')
       example_context example_heap 0) ! 0)
     (req_messages (fst (calls (execute (tool_then_answer ''get_current_time'' ''noon'')
       example_context example_heap 0) ! 1)))"
proof -
  let ?E = "tool_then_answer ''get_current_time'' ''noon''"
  let ?M = "''llama-3.3-70b-versatile''"
  let ?tc = "ToolCall ''get_current_time'' EmptyObject (Some ''call_1'') ?M"
  let ?s1 = "\<lparr>yielded = [?tc, Done (Some ?M)], thrown = None,
      created = [build_params ?M (turn_request example_context (example_heap ! 0))]\<rparr>"
  let ?after = "[\<lparr>role = ''user'', content = ''What time is it?'', tool_calls = None,
         tool_call_id = None, attachments = []\<rparr>,
        \<lparr>role = ''assistant'', content = [],
         tool_calls = Some [\<lparr>tce_id = Some ''call_1'', tce_name = ''get_current_time'',
                             tce_arguments = ''{}''\<rparr>],
         tool_call_id = None, attachments = []\<rparr>,
        \<lparr>role = ''tool'', content = ''12:00'', tool_calls = None,
         tool_call_id = Some ''call_1'', attachments = []\<rparr>]"
  let ?h2 = "[example_heap ! 0, ?after]"
  let ?s2 = "\<lparr>yielded = [Content ''noon'' ?M, Done (Some ?M)], thrown = None,
      created = [build_params ?M (turn_request example_context ?after)]\<rparr>"
  have st1: "stream ?E (turn_request example_context (example_heap ! ctx_messages example_context))
      None 0 = (?s1, 1)"
    by (simp add: first_stream example_valid)
  have rt: "run_tools ?E (length example_heap) (turn_tool_calls ?s1)
      (push (length example_heap) (assistant_message ?E (turn_text ?s1) (turn_tool_calls ?s1))
         (example_heap @ [example_heap ! ctx_messages example_context])) 1
      = ([ToolStart ''get_current_time'' ''\<newline>> Running `get_current_time`...\<newline>'',
          ToolResult ''get_current_time'' ''> Result: 12:00\<newline>''], ?h2, 1)"
    by (simp add: example_valid run_tool_def PluginManager_execute_def tool_then_answer_def
        scripted_def example_tools_def formatResult_def push_def assistant_message_def
        example_stringify_def example_heap_def)
  have st2: "stream ?E (turn_request example_context (?h2 ! length example_heap)) None 1 = (?s2, 2)"
    using second_stream[of "turn_request example_context ?after" "''noon''"
        "''get_current_time''" 0]
    by (simp add: example_valid)
  note run = two_turn_run[OF example_valid(1) st1 _ _ rt st2, simplified]
  have k: "0 < length (calls (execute ?E example_context example_heap 0)) \<and>
      requests_tools (calls (execute ?E example_context example_heap 0) ! 0)"
    by (simp add: run requests_tools_def)
  from role_sequencing[of 0 ?E example_context example_heap 0, THEN mp, OF k] k
  show ?thesis by (simp add: run example_valid)
qed



text \<open>
  C3, as the code has it. The claim says that argument text that does not
  parse produces a \<open>tool_error\<close> chunk for that call, that the run goes on and
  that no model retry happens. With an endpoint that sends the argument text
  \<open>{\<close>: under the task type \<open>fast\<close> the run throws the parser's error, having
  yielded no chunk at all and invoked no tool; under the default model the one
  Gateway call of the run calls the endpoint twice, the second time with the
  fallback model, and the run throws as well.
\<close>

theorem malformed_arguments_counterexample:
  "example_parse ''{'' = Inl (SyntaxError ''Unexpected end of JSON input'') \<and>
   raised (execute malformed fast_context example_heap 0)
     = Some (SyntaxError ''Unexpected end of JSON input'') \<and>
   chunks (execute malformed fast_context example_heap 0) = [] \<and>
   invocations (execute malformed fast_context example_heap 0) = [] \<and>
   raised (execute malformed example_context example_heap 0)
     = Some (SyntaxError ''Unexpected end of JSON input'') \<and>
   map (\<lambda>c. map p_model (created (snd c)))
       (calls (execute malformed example_context example_heap 0))
     = [[''llama-3.3-70b-versatile'', ''llama-3.1-8b-instant'']]"
  by (simp add: execute_def fast_valid example_valid maxIterations_def example_parse_def
      malformed_stream_fast malformed_stream_default p_model_build_params fastModel_def
      execute_loop_throw[where e = "SyntaxError ''Unexpected end of JSON input''"
        and ?w1.0 = 1]
      execute_loop_throw[where e = "SyntaxError ''Unexpected end of JSON input''"
        and ?w1.0 = 2])

text \<open>
  C3, amended. When the Gateway's loop reaches a wire chunk whose finish reason
  is \<open>tool_calls\<close> and one of the accumulators then has a name and argument
  text that does not parse, the body of \<open>try\<close> throws; the chunks it yielded
  contain no \<open>tool_error\<close> chunk. The error is handled as any failed model
  call is: when the model in use is not the fallback model the request is sent
  once more, to the fallback model; when it is the fallback model, \<open>stream\<close>
  throws the error. And in every turn of the Orchestrator in which the Gateway
  call throws, the run ends with that error: it has yielded the content chunks
  forwarded so far, invoked no tool and appended no message.
\<close>

theorem malformed_arguments:
  "(client_create env (build_params model request) w = (Inr (before @ chunk # rest, fail), w1) \<and>
    or_else modelName (selectModel env (req_taskType request)) = model \<and>
    snd (consume env model before None []) = None \<and>
    finish_reason chunk = Some ''tool_calls'' \<and>
    Some tc \<in> set (fold accumulate (delta_tool_calls chunk) (accumulators_after before [])) \<and>
    acc_name tc \<noteq> [] \<and>
    JSON_parse env (or_else (Some (acc_arguments tc)) ''{}'') = Inl e \<longrightarrow>
      (\<exists>ys e'.
         try_body env model (build_params model request) w = ((ys, Some e'), w1) \<and>
         filter is_tool_error ys = [] \<and>
         (model \<noteq> fastModel \<longrightarrow>
            created (fst (stream env request modelName w))
              = [build_params model request, build_params fastModel request]) \<and>
         (model = fastModel \<longrightarrow>
            stream env request modelName w =
              (\<lparr>yielded = ys, thrown = Some e',
                created = [build_params model request]\<rparr>, w1)))) \<and>
   (i < maxIterations \<and> stream env (turn_request ctx (h ! a)) None v = (s, v') \<and>
    thrown s = Some e'' \<longrightarrow>
      execute_loop env ctx a i h v =
        \<lparr>chunks = filter is_content (yielded s), raised = Some e'',
         calls = [(turn_request ctx (h ! a), s)], invocations = [], heap = h, world = v'\<rparr>)"
proof (intro conjI impI)
  assume a: "client_create env (build_params model request) w
        = (Inr (before @ chunk # rest, fail), w1) \<and>
    or_else modelName (selectModel env (req_taskType request)) = model \<and>
    snd (consume env model before None []) = None \<and>
    finish_reason chunk = Some ''tool_calls'' \<and>
    Some tc \<in> set (fold accumulate (delta_tool_calls chunk) (accumulators_after before [])) \<and>
    acc_name tc \<noteq> [] \<and>
    JSON_parse env (or_else (Some (acc_arguments tc)) ''{}'') = Inl e"
  let ?accs = "fold accumulate (delta_tool_calls chunk) (accumulators_after before [])"
  from a have "snd (emit_tool_calls env model ?accs) \<noteq> None"
    by (intro emit_malformed[of tc _ env e]) simp_all
  then obtain es e' where em: "emit_tool_calls env model ?accs = (es, Some e')"
    by (cases "emit_tool_calls env model ?accs") auto
  from a em have "snd (consume env model (chunk # rest) fail (accumulators_after before []))
      = Some e'"
    by (simp add: Let_def)
  with a have "snd (consume env model (before @ chunk # rest) fail []) = Some e'"
    by (simp add: consume_append)
  then obtain ys where c: "consume env model (before @ chunk # rest) fail [] = (ys, Some e')"
    by (cases "consume env model (before @ chunk # rest) fail []") auto
  with a have tb: "try_body env model (build_params model request) w = ((ys, Some e'), w1)"
    by (simp add: try_body_def)
  from c consume_no_tool_error[of env model "before @ chunk # rest" fail "[]"]
  have nte: "filter is_tool_error ys = []" by simp
  from a have m: "or_else modelName (selectModel env (req_taskType request)) = model" by simp
  have r: "model \<noteq> fastModel \<longrightarrow>
            created (fst (stream env request modelName w))
              = [build_params model request, build_params fastModel request]"
    using stream_retry[OF tb m] by simp
  have g: "model = fastModel \<longrightarrow>
            stream env request modelName w =
              (\<lparr>yielded = ys, thrown = Some e',
                created = [build_params model request]\<rparr>, w1)"
    using stream_give_up[of env request w ys e' w1 modelName] tb m by auto
  from tb nte r g show "\<exists>ys e'.
         try_body env model (build_params model request) w = ((ys, Some e'), w1) \<and>
         filter is_tool_error ys = [] \<and>
         (model \<noteq> fastModel \<longrightarrow>
            created (fst (stream env request modelName w))
              = [build_params model request, build_params fastModel request]) \<and>
         (model = fastModel \<longrightarrow>
            stream env request modelName w =
              (\<lparr>yielded = ys, thrown = Some e',
                created = [build_params model request]\<rparr>, w1))"
    by blast
next
  assume "i < maxIterations \<and> stream env (turn_request ctx (h ! a)) None v = (s, v') \<and>
    thrown s = Some e''"
  then show "execute_loop env ctx a i h v =
        \<lparr>chunks = filter is_content (yielded s), raised = Some e'',
         calls = [(turn_request ctx (h ! a), s)], invocations = [], heap = h, world = v'\<rparr>"
    by (intro execute_loop_throw) simp_all
qed

theorem malformed_arguments_witness:
  "stream malformed (turn_request fast_context (example_heap ! 0)) None 0
     = (\<lparr>yielded = [], thrown = Some (SyntaxError ''Unexpected end of JSON input''),
         created = [build_params fastModel (turn_request fast_context (example_heap ! 0))]\<rparr>,
        1) \<and>
   created (fst (stream malformed (turn_request example_context (example_heap ! 0)) None 0))
     = [build_params ''llama-3.3-70b-versatile''
          (turn_request example_context (example_heap ! 0)),
        build_params fastModel (turn_request example_context (example_heap ! 0))] \<and>
   execute_loop malformed fast_context 1 0 (example_heap @ [example_heap ! 0]) 0
     = \<lparr>chunks = [], raised = Some (SyntaxError ''Unexpected end of JSON input''),
        calls = [(turn_request fast_context (example_heap ! 0),
                  \<lparr>yielded = [],
                   thrown = Some (SyntaxError ''Unexpected end of JSON input''),
                   created = [build_params fastModel
                                (turn_request fast_context (example_heap ! 0))]\<rparr>)],
        invocations = [], heap = example_heap @ [example_heap ! 0], world = 1\<rparr>"
proof -
  let ?F = "turn_request fast_context (example_heap ! 0)"
  let ?R = "turn_request example_context (example_heap ! 0)"
  let ?M = "''llama-3.3-70b-versatile''"
  let ?d = "delta_chunk (first_delta 0 (Some ''call_1'') (Some ''get_current_time'') ''{'')"
  let ?tc = "\<lparr>acc_id = Some ''call_1'', acc_name = ''get_current_time'', acc_arguments = ''{''\<rparr>"
  let ?e = "SyntaxError ''Unexpected end of JSON input''"
  have acc: "accumulators_after [?d] [] = [Some ?tc]"
    by (simp add: accumulators_after_def delta_chunk_def first_delta_def accumulate_def
        array_get_def array_set_def)
  have hyp: "client_create malformed (build_params model req) 0
        = (Inr ([?d] @ finish_chunk ''tool_calls'' # [], None), 1) \<and>
      snd (consume malformed model [?d] None []) = None \<and>
      finish_reason (finish_chunk ''tool_calls'') = Some ''tool_calls'' \<and>
      Some ?tc \<in> set (fold accumulate (delta_tool_calls (finish_chunk ''tool_calls''))
                        (accumulators_after [?d] [])) \<and>
      acc_name ?tc \<noteq> [] \<and>
      JSON_parse malformed (or_else (Some (acc_arguments ?tc)) ''{}'') = Inl ?e" for model req
    unfolding acc
    by (simp add: malformed_def scripted_def requests_tool_def finish_chunk_def delta_chunk_def
        example_parse_def)
  have mf: "or_else None (selectModel malformed (req_taskType ?F)) = fastModel"
    by (simp add: selectModel_def routing_def fast_valid fastModel_def)
  have md: "or_else None (selectModel malformed (req_taskType ?R)) = ?M"
    by (simp add: selectModel_def routing_def example_valid)
  have ne: "?M \<noteq> fastModel" by (simp add: fastModel_def)
  from malformed_arguments[where env = malformed and model = fastModel and request = ?F
      and w = 0 and before = "[?d]" and chunk = "finish_chunk ''tool_calls''" and rest = "[]"
      and fail = None and ?w1.0 = 1 and modelName = None and tc = ?tc and e = ?e,
      THEN conjunct1, THEN mp, OF conjI[OF conjunct1[OF hyp] conjI[OF mf conjunct2[OF hyp]]]]
  obtain ys e' where
    "try_body malformed fastModel (build_params fastModel ?F) 0 = ((ys, Some e'), 1)"
    "stream malformed ?F None 0 =
       (\<lparr>yielded = ys, thrown = Some e', created = [build_params fastModel ?F]\<rparr>, 1)"
    by blast
  then have 1: "stream malformed ?F None 0 =
       (\<lparr>yielded = [], thrown = Some ?e, created = [build_params fastModel ?F]\<rparr>, 1)"
    by (simp add: malformed_try)
  from malformed_arguments[where env = malformed and model = ?M and request = ?R
      and w = 0 and before = "[?d]" and chunk = "finish_chunk ''tool_calls''" and rest = "[]"
      and fail = None and ?w1.0 = 1 and modelName = None and tc = ?tc and e = ?e,
      THEN conjunct1, THEN mp, OF conjI[OF conjunct1[OF hyp] conjI[OF md conjunct2[OF hyp]]]] ne
  have 2: "created (fst (stream malformed ?R None 0))
      = [build_params ?M ?R, build_params fastModel ?R]"
    by blast
  have lt: "0 < maxIterations" by (simp add: maxIterations_def)
  have st: "stream malformed (turn_request fast_context ((example_heap @ [example_heap ! 0]) ! 1))
      None 0
    = (\<lparr>yielded = [], thrown = Some ?e, created = [build_params fastModel ?F]\<rparr>, 1)"
    using 1 by (simp add: example_valid)
  from malformed_arguments[where env = malformed and i = 0 and ctx = fast_context
      and h = "example_heap @ [example_heap ! 0]" and a = 1 and v = 0 and v' = 1
      and s = "\<lparr>yielded = [], thrown = Some ?e, created = [build_params fastModel ?F]\<rparr>"
      and e'' = ?e, THEN conjunct2] lt st
  have 3: "execute_loop malformed fast_context 1 0 (example_heap @ [example_heap ! 0]) 0
     = \<lparr>chunks = [], raised = Some ?e,
        calls = [(?F, \<lparr>yielded = [], thrown = Some ?e,
                        created = [build_params fastModel ?F]\<rparr>)],
        invocations = [], heap = example_heap @ [example_heap ! 0], world = 1\<rparr>"
    by (simp add: example_valid)
  from 1 2 3 show ?thesis by simp
qed

end
